theory Spec2Isabelle
  imports Main
begin

section \<open>The launch plan builder of \<^verbatim>\<open>scripts/qemucommand.py\<close>\<close>

text \<open>
  The script resolves a parsed options object (\<^verbatim>\<open>args\<close>) into a \<^verbatim>\<open>QemuCommand\<close>
  object and renders that object as the token list of a QEMU invocation. Everything the
  Python reads from or writes to its surroundings is collected in one record, the world:
  the module-level table \<^verbatim>\<open>EXTENSIONS\<close>, the file system, the TCP ports, the random
  generator, the \<^verbatim>\<open>kvm-ok\<close> probe and standard output. A function of the script takes
  the world and returns its result with the world it leaves behind; a raised exception is
  the \<open>Inl\<close> of a sum, and the world returned with it holds the effects that happened
  before the raise.
\<close>

subsection \<open>Exceptions\<close>

text \<open>
  One constructor for each \<^verbatim>\<open>raise\<close> of the script, carrying the path its message
  names, and one for each exception the library calls raise on the inputs the script can
  hand them.
\<close>

datatype error =
    OverlayWithoutUBoot        \<comment> \<open>\<^verbatim>\<open>EnvironmentError\<close>, line 54\<close>
  | DirectoryMissing string    \<comment> \<open>\<^verbatim>\<open>ValueError\<close>, line 65\<close>
  | MachineAmbiguous string    \<comment> \<open>\<^verbatim>\<open>ValueError\<close>, line 72\<close>
  | UBootImageMissing string   \<comment> \<open>\<^verbatim>\<open>ValueError\<close>, lines 89 and 99\<close>
  | OSImageMissing string      \<comment> \<open>\<^verbatim>\<open>ValueError\<close>, lines 117 and 127\<close>
  | NoFreePort                 \<comment> \<open>\<^verbatim>\<open>Exception\<close>, line 28\<close>
  | TypeError                  \<comment> \<open>\<^verbatim>\<open>os.path.exists(None)\<close>\<close>
  | OverflowError              \<comment> \<open>\<^verbatim>\<open>socket.bind\<close> with a port outside 0..65535\<close>
  | FileNotFoundError string   \<comment> \<open>\<^verbatim>\<open>shutil.copyfile\<close>: no such file or directory\<close>
  | IsADirectoryError string   \<comment> \<open>\<^verbatim>\<open>shutil.copyfile\<close> from or onto a directory\<close>
  | NotADirectoryError string  \<comment> \<open>\<^verbatim>\<open>shutil.copyfile\<close> into a path under a regular file\<close>
  | SameFileError string       \<comment> \<open>\<^verbatim>\<open>shutil.copyfile\<close> of a file onto itself\<close>
  | AttributeError             \<comment> \<open>reading an attribute that was never assigned\<close>

text \<open>The error taxonomy of the specification, and where each exception falls in it.\<close>

datatype error_class =
  ConfigurationError | MissingArtifactError | ResourceExhaustionError | OtherError

fun classify :: "error \<Rightarrow> error_class" where
  "classify OverlayWithoutUBoot = ConfigurationError"
| "classify (DirectoryMissing d) = ConfigurationError"
| "classify (MachineAmbiguous d) = ConfigurationError"
| "classify (UBootImageMissing p) = MissingArtifactError"
| "classify (OSImageMissing p) = MissingArtifactError"
| "classify NoFreePort = ResourceExhaustionError"
| "classify TypeError = OtherError"
| "classify OverflowError = OtherError"
| "classify (FileNotFoundError p) = OtherError"
| "classify (IsADirectoryError p) = OtherError"
| "classify (NotADirectoryError p) = OtherError"
| "classify (SameFileError p) = OtherError"
| "classify AttributeError = OtherError"

subsection \<open>The world\<close>

record world =
  extensions :: "string \<rightharpoonup> string"     \<comment> \<open>the current content of the module-level dict \<^verbatim>\<open>EXTENSIONS\<close>\<close>
  files :: "string set"                  \<comment> \<open>the paths for which \<^verbatim>\<open>os.path.exists\<close> holds\<close>
  dirs :: "string \<rightharpoonup> string list"         \<comment> \<open>the directories, each with its \<^verbatim>\<open>listdir\<close>\<close>
  realpath :: "string \<Rightarrow> string"          \<comment> \<open>\<^verbatim>\<open>os.path.realpath\<close>\<close>
  abspath :: "string \<Rightarrow> string"           \<comment> \<open>\<^verbatim>\<open>os.path.abspath\<close>\<close>
  refused_ports :: "int set"             \<comment> \<open>the ports on which \<^verbatim>\<open>bind\<close> raises \<^verbatim>\<open>socket.error\<close>\<close>
  kvm_ok :: bool                         \<comment> \<open>whether \<^verbatim>\<open>check_output(['kvm-ok'])\<close> returns\<close>
  random_source :: "nat \<Rightarrow> nat"           \<comment> \<open>the draws of the random generator, in order\<close>
  random_used :: nat                     \<comment> \<open>how many draws were consumed\<close>
  stdout :: "string list"                \<comment> \<open>the lines printed so far\<close>
  copied :: "(string \<times> string) list"      \<comment> \<open>the \<^verbatim>\<open>copyfile\<close> calls made so far, (source, destination)\<close>

text \<open>The table as the module defines it (lines 8 to 11).\<close>

definition EXTENSIONS :: "string \<rightharpoonup> string" where
  "EXTENSIONS = [''intel-corei7-64'' \<mapsto> ''wic'', ''qemux86-64'' \<mapsto> ''ota-ext4'']"

subsection \<open>Library calls\<close>

text \<open>
  An optional string of Python is \<open>None\<close> or a string; \<^verbatim>\<open>if x:\<close> holds for a non-empty
  string only. \<open>given\<close> returns the string in that case.
\<close>

definition given :: "string option \<Rightarrow> string option" where
  "given v = (case v of None \<Rightarrow> None | Some s \<Rightarrow> if s = [] then None else Some s)"

definition truthy :: "string option \<Rightarrow> bool" where
  "truthy v = (given v \<noteq> None)"

text \<open>\<^verbatim>\<open>os.path.exists(p)\<close> for a string; the empty path never exists.\<close>

definition exists :: "world \<Rightarrow> string \<Rightarrow> bool" where
  "exists w p = (p \<noteq> [] \<and> p \<in> files w)"

text \<open>\<^verbatim>\<open>os.path.isdir(d)\<close>: an existing path that has a listing.\<close>

definition isdir :: "world \<Rightarrow> string \<Rightarrow> bool" where
  "isdir w d = (exists w d \<and> dirs w d \<noteq> None)"

definition listdir :: "world \<Rightarrow> string \<Rightarrow> string list" where
  "listdir w d = (case dirs w d of None \<Rightarrow> [] | Some entries \<Rightarrow> entries)"

text \<open>
  \<^verbatim>\<open>posixpath.join(a, *p)\<close>: a component that starts with a slash replaces what came
  before it; otherwise it is appended, after a slash unless the path so far is empty or
  ends with one.
\<close>

fun join :: "string \<Rightarrow> string list \<Rightarrow> string" where
  "join path [] = path"
| "join path (b # p) =
     join (if b \<noteq> [] \<and> hd b = CHR ''/'' then b
           else if path = [] \<or> last path = CHR ''/'' then path @ b
           else path @ ''/'' @ b) p"

definition print :: "world \<Rightarrow> string \<Rightarrow> world" where
  "print w line = w\<lparr>stdout := stdout w @ [line]\<rparr>"

text \<open>
  \<^verbatim>\<open>posixpath.dirname(p)\<close> and \<^verbatim>\<open>posixpath.basename(p)\<close>: the path is cut after
  its last slash; the head loses its trailing slashes unless it consists of slashes only.
\<close>

definition basename :: "string \<Rightarrow> string" where
  "basename p = rev (takeWhile (\<lambda>c. c \<noteq> CHR ''/'') (rev p))"

definition dirname :: "string \<Rightarrow> string" where
  "dirname p =
     (let head = rev (dropWhile (\<lambda>c. c \<noteq> CHR ''/'') (rev p))
      in if head \<noteq> [] \<and> \<not> list_all (\<lambda>c. c = CHR ''/'') head
         then rev (dropWhile (\<lambda>c. c = CHR ''/'') (rev head))
         else head)"

text \<open>
  \<^verbatim>\<open>shutil.copyfile(src, dst)\<close> opens the source for reading and then the destination
  for writing. It raises when both are the same existing file, when the source is absent
  or a directory, and when the destination is a directory or cannot be created because
  the directory it names does not exist or is a regular file; a relative destination
  with no directory part goes to the current directory. Otherwise it creates the
  destination, which then shows in the listing of its directory. Permissions, links and a
  full disk are not modelled.
\<close>

definition copyfile_error :: "world \<Rightarrow> string \<Rightarrow> string \<Rightarrow> error option" where
  "copyfile_error w src dst =
     (if src = dst \<and> exists w src then Some (SameFileError src)
      else if \<not> exists w src then Some (FileNotFoundError src)
      else if isdir w src then Some (IsADirectoryError src)
      else if basename dst = [] then
        (if isdir w (dirname dst) then Some (IsADirectoryError dst)
         else Some (FileNotFoundError dst))
      else if isdir w dst then Some (IsADirectoryError dst)
      else if dirname dst = [] \<or> isdir w (dirname dst) then None
      else if exists w (dirname dst) then Some (NotADirectoryError dst)
      else Some (FileNotFoundError dst))"

definition add_entry :: "(string \<rightharpoonup> string list) \<Rightarrow> string \<Rightarrow> (string \<rightharpoonup> string list)" where
  "add_entry listing dst =
     (case listing (dirname dst) of
        None \<Rightarrow> listing
      | Some entries \<Rightarrow>
          if basename dst \<in> set entries then listing
          else listing(dirname dst \<mapsto> entries @ [basename dst]))"

definition copyfile :: "world \<Rightarrow> string \<Rightarrow> string \<Rightarrow> (error + unit) \<times> world" where
  "copyfile w src dst =
     (case copyfile_error w src dst of
        Some e \<Rightarrow> (Inl e, w)
      | None \<Rightarrow>
          (Inr (), w\<lparr>files := insert dst (files w),
                      dirs := add_entry (dirs w) dst,
                      copied := copied w @ [(src, dst)]\<rparr>))"

text \<open>
  \<^verbatim>\<open>str.lower\<close>, on the ASCII letters. The script compares the result with three ASCII
  literals only, and no character outside ASCII is lowered to one of their letters.
\<close>

definition lower_char :: "char \<Rightarrow> char" where
  "lower_char c =
     (case map_of (zip ''ABCDEFGHIJKLMNOPQRSTUVWXYZ'' ''abcdefghijklmnopqrstuvwxyz'') c of
        None \<Rightarrow> c | Some l \<Rightarrow> l)"

definition lower :: "string \<Rightarrow> string" where
  "lower s = map lower_char s"

text \<open>\<^verbatim>\<open>'%d' % n\<close>: the decimal digits of an integer, with a minus sign if negative.\<close>

function decimal :: "nat \<Rightarrow> string" where
  "decimal n = (if n < 10 then [''0123456789'' ! n]
                else decimal (n div 10) @ [''0123456789'' ! (n mod 10)])"
  by pat_completeness auto
termination
  by (relation "measure id") auto

declare decimal.simps [simp del]

definition format_d :: "int \<Rightarrow> string" where
  "format_d i = (if i < 0 then CHR ''-'' # decimal (nat (- i)) else decimal (nat i))"

text \<open>\<^verbatim>\<open>sep.join(parts)\<close>.\<close>

fun str_join :: "string \<Rightarrow> string list \<Rightarrow> string" where
  "str_join sep [] = []"
| "str_join sep [x] = x"
| "str_join sep (x # y # ys) = x @ sep @ str_join sep (y # ys)"

subsection \<open>\<^verbatim>\<open>find_local_port\<close> (lines 14 to 28)\<close>

text \<open>
  \<^verbatim>\<open>s.bind(('', port))\<close> raises \<^verbatim>\<open>OverflowError\<close> for a port outside 0..65535,
  which the \<^verbatim>\<open>except socket.error\<close> clause does not catch, raises \<^verbatim>\<open>socket.error\<close>
  on a port the system refuses, and otherwise binds the port, which is refused to
  everyone else until the socket is closed. Creating the socket is taken to succeed.
\<close>

datatype bind_result = Bound | Raises_socket_error | Raises_OverflowError

definition bind_outcome :: "world \<Rightarrow> int \<Rightarrow> bind_result" where
  "bind_outcome w port =
     (if port < 0 \<or> 65535 < port then Raises_OverflowError
      else if port \<in> refused_ports w then Raises_socket_error
      else Bound)"

definition socket_bind :: "world \<Rightarrow> int \<Rightarrow> world" where
  "socket_bind w port = w\<lparr>refused_ports := insert port (refused_ports w)\<rparr>"

text \<open>\<^verbatim>\<open>s.close()\<close>, for a socket bound to the given port or to none.\<close>

definition socket_close :: "world \<Rightarrow> int option \<Rightarrow> world" where
  "socket_close w bound =
     (case bound of None \<Rightarrow> w
      | Some port \<Rightarrow> w\<lparr>refused_ports := refused_ports w - {port}\<rparr>)"

text \<open>
  The loop over \<^verbatim>\<open>range(start_port, start_port + 10)\<close>; the \<^verbatim>\<open>finally\<close> clause closes
  the socket on each of the three ways out of the \<^verbatim>\<open>try\<close>.
\<close>

fun probe_ports :: "world \<Rightarrow> int list \<Rightarrow> (error + int) \<times> world" where
  "probe_ports w [] = (Inl NoFreePort, w)"
| "probe_ports w (port # ports) =
     (case bind_outcome w port of
        Bound \<Rightarrow> (Inr port, socket_close (socket_bind w port) (Some port))
      | Raises_socket_error \<Rightarrow>
          probe_ports (socket_close (print w (''Skipping port '' @ format_d port)) None) ports
      | Raises_OverflowError \<Rightarrow> (Inl OverflowError, socket_close w None))"

definition find_local_port :: "world \<Rightarrow> int \<Rightarrow> (error + int) \<times> world" where
  "find_local_port w start_port = probe_ports w [start_port .. start_port + 10 - 1]"

subsection \<open>\<^verbatim>\<open>random_mac\<close> (lines 31 to 37)\<close>

definition random_choice :: "world \<Rightarrow> string \<Rightarrow> char \<times> world" where
  "random_choice w seq =
     (seq ! (random_source w (random_used w) mod length seq),
      w\<lparr>random_used := Suc (random_used w)\<rparr>)"

definition hex_digits :: string where
  "hex_digits = ''0123456789abcdef''"

definition random_pair :: "world \<Rightarrow> string \<times> world" where
  "random_pair w =
     (let (a, w1) = random_choice w hex_digits;
          (b, w2) = random_choice w1 hex_digits
      in ([a, b], w2))"

fun random_pairs :: "nat \<Rightarrow> world \<Rightarrow> string list \<times> world" where
  "random_pairs 0 w = ([], w)"
| "random_pairs (Suc n) w =
     (let (x, w1) = random_pair w;
          (xs, w2) = random_pairs n w1
      in (x # xs, w2))"

definition random_mac :: "world \<Rightarrow> string \<times> world" where
  "random_mac w =
     (let (parts, w') = random_pairs 4 w
      in (''ca:fe:'' @ str_join '':'' parts, w'))"

subsection \<open>The options and the object built from them\<close>

text \<open>
  The attributes of \<^verbatim>\<open>args\<close> that the constructor reads, under the names the script
  uses, prefixed with \<open>arg_\<close>. \<^verbatim>\<open>uboot_enable\<close> and \<^verbatim>\<open>host_forward\<close> are read
  through \<^verbatim>\<open>hasattr\<close>: their outer \<open>None\<close> is the absent attribute.
\<close>

record options =
  arg_machine :: "string option"
  arg_dir :: string
  arg_imagename :: string
  arg_efi :: bool
  arg_bootloader :: "string option"
  arg_overlay :: "string option"
  arg_uboot_enable :: "string option"
  arg_dry_run :: bool
  arg_mac :: "string option"
  arg_mem :: "string option"
  arg_kvm :: "bool option"
  arg_no_gui :: bool
  arg_gdb :: bool
  arg_pcap :: "string option"
  arg_secondary_network :: bool
  arg_host_forward :: "string option option"

text \<open>
  The attributes of \<^verbatim>\<open>self\<close>. \<^verbatim>\<open>bios\<close> is assigned on some paths only: \<open>None\<close>
  is the attribute that was never assigned. \<^verbatim>\<open>kernel\<close> starts as Python's \<open>None\<close>.
\<close>

record QemuCommand =
  enable_u_boot :: bool
  dry_run :: bool
  overlay :: "string option"
  host_fwd :: "string option"
  kernel :: "string option"
  drive_interface :: string
  machine :: string
  bios :: "string option"
  image :: string
  mac_address :: string
  serial_port :: int
  ssh_port :: int
  mem :: string
  kvm :: bool
  gui :: bool
  gdb :: bool
  pcap :: "string option"
  secondary_network :: bool

subsection \<open>\<^verbatim>\<open>QemuCommand.__init__\<close> (lines 41 to 149)\<close>

text \<open>Lines 42, 49 and 50: the value of \<^verbatim>\<open>self.enable_u_boot\<close>.\<close>

definition uboot_enabled :: "options \<Rightarrow> bool" where
  "uboot_enabled args =
     (case arg_uboot_enable args of
        None \<Rightarrow> True
      | Some v \<Rightarrow> lower v \<in> set [''yes'', ''true'', ''1''])"

text \<open>Lines 57 to 59: the assignment to the module-level table.\<close>

definition override_extension :: "world \<Rightarrow> bool \<Rightarrow> world" where
  "override_extension w enable =
     (if \<not> enable then w\<lparr>extensions := (extensions w)(''qemux86-64'' \<mapsto> ''ext4'')\<rparr> else w)"

text \<open>Lines 61 to 74: the value of \<^verbatim>\<open>self.machine\<close>.\<close>

definition detect_machine :: "world \<Rightarrow> options \<Rightarrow> error + string" where
  "detect_machine w args =
     (case given (arg_machine args) of
        Some m \<Rightarrow> Inr m
      | None \<Rightarrow>
          if \<not> isdir w (arg_dir args) then Inl (DirectoryMissing (arg_dir args))
          else (case listdir w (arg_dir args) of
                  [m] \<Rightarrow> Inr m
                | _ \<Rightarrow> Inl (MachineAmbiguous (arg_dir args))))"

text \<open>
  Lines 87 to 94 and again lines 115 to 122: with the overlay file absent, the source must
  exist, and it is copied beside the overlay unless the copy is there already; a dry run
  prints the copy instead.
\<close>

definition keep_beside_overlay ::
  "world \<Rightarrow> bool \<Rightarrow> string \<Rightarrow> string \<Rightarrow> string \<Rightarrow> error \<Rightarrow> (error + unit) \<times> world" where
  "keep_beside_overlay w dry ov src dst missing =
     (if \<not> exists w ov then
        if \<not> exists w src then (Inl missing, w)
        else if \<not> exists w dst then
          if dry then (Inr (), print w (''cp '' @ src @ '' '' @ dst))
          else copyfile w src dst
        else (Inr (), w)
      else (Inr (), w))"

text \<open>
  Lines 96 to 99 and again lines 126 and 127:
  \<^verbatim>\<open>if not exists(p) and (not self.dry_run or exists(self.overlay)): raise\<close>.
  The last disjunct is evaluated only when the others leave it open, and
  \<^verbatim>\<open>exists(None)\<close> raises.
\<close>

definition check_present :: "world \<Rightarrow> bool \<Rightarrow> string option \<Rightarrow> string \<Rightarrow> error \<Rightarrow> error + unit" where
  "check_present w dry ov p missing =
     (if exists w p then Inr ()
      else if \<not> dry then Inl missing
      else (case ov of
              None \<Rightarrow> Inl TypeError
            | Some file \<Rightarrow> if exists w file then Inl missing else Inr ()))"

text \<open>Lines 81 to 84: the U-Boot image before any overlay.\<close>

definition uboot_source :: "world \<Rightarrow> options \<Rightarrow> string \<Rightarrow> string" where
  "uboot_source w args m =
     (case given (arg_bootloader args) of
        Some b \<Rightarrow> b
      | None \<Rightarrow> abspath w (join (arg_dir args) [m, ''u-boot-qemux86-64.rom'']))"

text \<open>Lines 78 to 102: the values of \<^verbatim>\<open>self.bios\<close> and \<^verbatim>\<open>self.kernel\<close>.\<close>

definition select_boot ::
  "world \<Rightarrow> options \<Rightarrow> bool \<Rightarrow> string \<Rightarrow> (error + string option \<times> string option) \<times> world" where
  "select_boot w args enable m =
     (if arg_efi args then (Inr (Some ''OVMF.fd'', None), w)
      else if enable then
        (let uboot_path = uboot_source w args m in
         case given (arg_overlay args) of
           Some ov \<Rightarrow>
             (let new_uboot_path = ov @ ''.u-boot.rom'' in
              case keep_beside_overlay w (arg_dry_run args) ov uboot_path new_uboot_path
                     (UBootImageMissing uboot_path) of
                (Inl e, w') \<Rightarrow> (Inl e, w')
              | (Inr u, w') \<Rightarrow>
                  (case check_present w' (arg_dry_run args) (arg_overlay args) new_uboot_path
                          (UBootImageMissing new_uboot_path) of
                     Inl e \<Rightarrow> (Inl e, w')
                   | Inr u \<Rightarrow> (Inr (Some new_uboot_path, None), w')))
         | None \<Rightarrow>
             (case check_present w (arg_dry_run args) (arg_overlay args) uboot_path
                     (UBootImageMissing uboot_path) of
                Inl e \<Rightarrow> (Inl e, w)
              | Inr u \<Rightarrow> (Inr (Some uboot_path, None), w)))
      else (Inr (None, Some (abspath w (join (arg_dir args) [m, ''bzImage-qemux86-64.bin'']))), w))"

text \<open>Line 111: \<^verbatim>\<open>EXTENSIONS.get(self.machine, 'wic')\<close>.\<close>

definition extension_for :: "world \<Rightarrow> string \<Rightarrow> string" where
  "extension_for w m = (case extensions w m of None \<Rightarrow> ''wic'' | Some ext \<Rightarrow> ext)"

text \<open>Lines 108 to 112: the local \<^verbatim>\<open>image\<close>, the base disk image.\<close>

definition base_image :: "world \<Rightarrow> options \<Rightarrow> string \<Rightarrow> string" where
  "base_image w args m =
     (if exists w (arg_imagename args) then realpath w (arg_imagename args)
      else join (arg_dir args)
             [m, arg_imagename args @ ''-'' @ m @ ''.'' @ extension_for w m])"

text \<open>Lines 108 to 127: the value of \<^verbatim>\<open>self.image\<close>.\<close>

definition select_image :: "world \<Rightarrow> options \<Rightarrow> string \<Rightarrow> (error + string) \<times> world" where
  "select_image w args m =
     (let image = base_image w args m in
      case given (arg_overlay args) of
        Some ov \<Rightarrow>
          (let new_image_path = ov @ ''.img'' in
           case keep_beside_overlay w (arg_dry_run args) ov image new_image_path
                  (OSImageMissing image) of
             (Inl e, w') \<Rightarrow> (Inl e, w')
           | (Inr u, w') \<Rightarrow>
               (case check_present w' (arg_dry_run args) (arg_overlay args) new_image_path
                       (OSImageMissing new_image_path) of
                  Inl e \<Rightarrow> (Inl e, w')
                | Inr u \<Rightarrow> (Inr new_image_path, w')))
      | None \<Rightarrow>
          (let self_image = realpath w image in
           case check_present w (arg_dry_run args) (arg_overlay args) self_image
                  (OSImageMissing self_image) of
             Inl e \<Rightarrow> (Inl e, w)
           | Inr u \<Rightarrow> (Inr self_image, w)))"

text \<open>Line 129: the value of \<^verbatim>\<open>self.mac_address\<close>.\<close>

definition select_mac :: "world \<Rightarrow> options \<Rightarrow> string \<times> world" where
  "select_mac w args =
     (case given (arg_mac args) of Some a \<Rightarrow> (a, w) | None \<Rightarrow> random_mac w)"

text \<open>Lines 133 to 141: the value of \<^verbatim>\<open>self.kvm\<close>.\<close>

definition select_kvm :: "world \<Rightarrow> options \<Rightarrow> bool" where
  "select_kvm w args = (case arg_kvm args of None \<Rightarrow> kvm_ok w | Some k \<Rightarrow> k)"

text \<open>Lines 129 to 149: what remains once the images are settled.\<close>

definition finish_init ::
  "world \<Rightarrow> options \<Rightarrow> bool \<Rightarrow> string \<Rightarrow> string option \<times> string option \<Rightarrow> string
     \<Rightarrow> (error + QemuCommand) \<times> world" where
  "finish_init w args enable m boot img =
     (let (mac, w1) = select_mac w args in
      case find_local_port w1 8990 of
        (Inl e, w2) \<Rightarrow> (Inl e, w2)
      | (Inr serial, w2) \<Rightarrow>
          (case find_local_port w2 2222 of
             (Inl e, w3) \<Rightarrow> (Inl e, w3)
           | (Inr ssh, w3) \<Rightarrow>
               (Inr \<lparr> enable_u_boot = enable,
                      dry_run = arg_dry_run args,
                      overlay = arg_overlay args,
                      host_fwd = (case arg_host_forward args of None \<Rightarrow> None | Some h \<Rightarrow> h),
                      kernel = snd boot,
                      drive_interface = (if \<not> enable then ''virtio'' else ''ide''),
                      machine = m,
                      bios = fst boot,
                      image = img,
                      mac_address = mac,
                      serial_port = serial,
                      ssh_port = ssh,
                      mem = (case given (arg_mem args) of Some v \<Rightarrow> v | None \<Rightarrow> ''1G''),
                      kvm = select_kvm w3 args,
                      gui = (\<not> arg_no_gui args),
                      gdb = arg_gdb args,
                      pcap = arg_pcap args,
                      secondary_network = arg_secondary_network args \<rparr>, w3)))"

text \<open>
  Lines 42 to 102, up to the point where line 108 looks for the disk image: the value of
  \<^verbatim>\<open>self.enable_u_boot\<close>, the machine, and the values of \<^verbatim>\<open>self.bios\<close> and
  \<^verbatim>\<open>self.kernel\<close>.
\<close>

definition boot_stage ::
  "world \<Rightarrow> options \<Rightarrow> (error + bool \<times> string \<times> string option \<times> string option) \<times> world" where
  "boot_stage w args =
     (let enable = uboot_enabled args in
      if \<not> enable \<and> truthy (arg_overlay args) then (Inl OverlayWithoutUBoot, w)
      else
        (let w1 = override_extension w enable in
         case detect_machine w1 args of
           Inl e \<Rightarrow> (Inl e, w1)
         | Inr m \<Rightarrow>
             (case select_boot w1 args enable m of
                (Inl e, w2) \<Rightarrow> (Inl e, w2)
              | (Inr boot, w2) \<Rightarrow> (Inr (enable, m, boot), w2))))"

text \<open>The constructor.\<close>

definition QemuCommand_init :: "world \<Rightarrow> options \<Rightarrow> (error + QemuCommand) \<times> world" where
  "QemuCommand_init w args =
     (case boot_stage w args of
        (Inl e, w2) \<Rightarrow> (Inl e, w2)
      | (Inr (enable, m, boot), w2) \<Rightarrow>
          (case select_image w2 args m of
             (Inl e, w3) \<Rightarrow> (Inl e, w3)
           | (Inr img, w3) \<Rightarrow> finish_init w3 args enable m boot img))"

text \<open>Constructions that follow one another in one process, each from the world the last left.\<close>

fun constructions :: "world \<Rightarrow> options list \<Rightarrow> world" where
  "constructions w [] = w"
| "constructions w (args # rest) = constructions (snd (QemuCommand_init w args)) rest"

subsection \<open>\<^verbatim>\<open>QemuCommand.command_line\<close> (lines 151 to 213)\<close>

text \<open>
  A token of the command line is a string or, where the script puts the value of
  \<^verbatim>\<open>self.kernel\<close> that nothing assigned, Python's \<open>None\<close>.
\<close>

definition netuser :: "QemuCommand \<Rightarrow> string" where
  "netuser c =
     ''user,hostfwd=tcp:0.0.0.0:'' @ format_d (ssh_port c) @ ''-:22,restrict=off''
     @ (if gdb c then '',hostfwd=tcp:0.0.0.0:2159-:2159'' else [])
     @ (case given (host_fwd c) of Some h \<Rightarrow> '',hostfwd='' @ h | None \<Rightarrow> [])"

definition boot_tokens :: "QemuCommand \<Rightarrow> error + string option list" where
  "boot_tokens c =
     (if enable_u_boot c then
        (case bios c of None \<Rightarrow> Inl AttributeError | Some b \<Rightarrow> Inr [Some ''-bios'', Some b])
      else Inr [Some ''-kernel'', kernel c])"

definition drive_tokens :: "QemuCommand \<Rightarrow> string option list" where
  "drive_tokens c =
     (if \<not> truthy (overlay c) then
        [Some ''-drive'',
         Some (''file='' @ image c @ '',if='' @ drive_interface c @ '',format=raw,snapshot=on'')]
      else [])"

definition device_tokens :: "QemuCommand \<Rightarrow> string option list" where
  "device_tokens c =
     [Some ''-serial'',
      Some (''tcp:127.0.0.1:'' @ format_d (serial_port c) @ '',server,nowait''),
      Some ''-m'',
      Some (mem c),
      Some ''-object'',
      Some ''rng-random,id=rng0,filename=/dev/urandom'',
      Some ''-device'',
      Some ''virtio-rng-pci,rng=rng0'',
      Some ''-net'',
      Some (netuser c),
      Some ''-net'',
      Some (''nic,macaddr='' @ mac_address c)]
     @ (case given (pcap c) of
          Some f \<Rightarrow> [Some ''-net'', Some (''dump,file='' @ f)]
        | None \<Rightarrow> [])"

definition secondary_tokens :: "world \<Rightarrow> QemuCommand \<Rightarrow> string option list \<times> world" where
  "secondary_tokens w c =
     (if secondary_network c then
        (let (mac, w') = random_mac w in
         ([Some ''-netdev'',
           Some ''socket,id=vlan1,mcast=230.0.0.1:1234,localaddr=127.0.0.1'',
           Some ''-device'',
           Some (''e1000,netdev=vlan1,mac='' @ mac)], w'))
      else ([], w))"

definition display_tokens :: "QemuCommand \<Rightarrow> string option list" where
  "display_tokens c =
     (if gui c then
        [Some ''-usb'', Some ''-device'', Some ''usb-tablet'', Some ''-show-cursor'',
         Some ''-vga'', Some ''std'']
      else [Some ''-nographic'', Some ''-monitor'', Some ''null''])
     @ (if kvm c then [Some ''-enable-kvm'', Some ''-cpu'', Some ''host'']
        else [Some ''-cpu'', Some ''Haswell''])"

definition tail_tokens :: "QemuCommand \<Rightarrow> string option list" where
  "tail_tokens c =
     (case given (overlay c) of Some ov \<Rightarrow> [Some ov] | None \<Rightarrow> [])
     @ (if \<not> enable_u_boot c then
          [Some ''-append'', Some ''root=/dev/vda rw highres=off console=ttyS0 ip=dhcp'']
        else [])"

definition command_line :: "world \<Rightarrow> QemuCommand \<Rightarrow> (error + string option list) \<times> world" where
  "command_line w c =
     (case boot_tokens c of
        Inl e \<Rightarrow> (Inl e, w)
      | Inr boot \<Rightarrow>
          (let (secondary, w') = secondary_tokens w c in
           (Inr ([Some ''qemu-system-x86_64''] @ boot @ drive_tokens c @ device_tokens c
                   @ secondary @ display_tokens c @ tail_tokens c), w')))"

subsection \<open>Reading a command line\<close>

text \<open>\<open>followed_by x y ts\<close>: the token \<open>x\<close> occurs in \<open>ts\<close> with \<open>y\<close> right after it.\<close>

fun followed_by :: "'a \<Rightarrow> 'a \<Rightarrow> 'a list \<Rightarrow> bool" where
  "followed_by x y (a # b # ts) = ((a = x \<and> b = y) \<or> followed_by x y (b # ts))"
| "followed_by x y ts = False"

text \<open>
  A call of the constructor reaches the assignment of line 59 when U-Boot is disabled and
  line 54 did not raise, that is, when no overlay is given.
\<close>

definition overrides_table :: "options \<Rightarrow> bool" where
  "overrides_table args = (\<not> uboot_enabled args \<and> \<not> truthy (arg_overlay args))"

subsection \<open>The specification's reading of the extension table\<close>

text \<open>
  The extension as the specification states it: the entry of the table for the two
  machines it lists, \<^verbatim>\<open>ext4\<close> in place of \<^verbatim>\<open>ota-ext4\<close> when U-Boot is disabled,
  and \<^verbatim>\<open>wic\<close> for any other machine.
\<close>

definition spec_extension :: "string \<Rightarrow> bool \<Rightarrow> string" where
  "spec_extension m uboot =
     (if m = ''intel-corei7-64'' then ''wic''
      else if m = ''qemux86-64'' then (if uboot then ''ota-ext4'' else ''ext4'')
      else ''wic'')"

text \<open>
  The table a construction leaves behind: untouched when U-Boot is enabled or the overlay
  is refused at line 54, overridden at line 59 otherwise.
\<close>

definition table_after :: "world \<Rightarrow> options \<Rightarrow> string \<rightharpoonup> string" where
  "table_after w args =
     (if uboot_enabled args \<or> truthy (arg_overlay args) then extensions w
      else (extensions w)(''qemux86-64'' \<mapsto> ''ext4''))"

subsection \<open>A build directory and a set of options\<close>

text \<open>
  A freshly started process beside the output of a build for \<^verbatim>\<open>qemux86-64\<close>: the
  U-Boot image and the disk image in both formats are on disk, \<^verbatim>\<open>/tmp\<close> is an empty
  directory, every port is free, and paths are absolute and free of links already.
\<close>

definition build_world :: world where
  "build_world =
     \<lparr> extensions = EXTENSIONS,
       files = {''/tmp'',
                ''/img'',
                ''/img/qemux86-64'',
                ''/img/qemux86-64/u-boot-qemux86-64.rom'',
                ''/img/qemux86-64/core-qemux86-64.ota-ext4'',
                ''/img/qemux86-64/core-qemux86-64.ext4''},
       dirs = [''/img'' \<mapsto> [''qemux86-64''],
               ''/img/qemux86-64'' \<mapsto> [''u-boot-qemux86-64.rom'', ''core-qemux86-64.ota-ext4'',
                                        ''core-qemux86-64.ext4''],
               ''/tmp'' \<mapsto> []],
       realpath = (\<lambda>p. p),
       abspath = (\<lambda>p. p),
       refused_ports = {},
       kvm_ok = False,
       random_source = (\<lambda>n. n),
       random_used = 0,
       stdout = [],
       copied = [] \<rparr>"

text \<open>The options of a run with no flag but the image directory, the image name and a MAC.\<close>

definition plain_options :: options where
  "plain_options =
     \<lparr> arg_machine = None,
       arg_dir = ''/img'',
       arg_imagename = ''core'',
       arg_efi = False,
       arg_bootloader = None,
       arg_overlay = None,
       arg_uboot_enable = None,
       arg_dry_run = False,
       arg_mac = Some ''ca:fe:00:00:00:01'',
       arg_mem = None,
       arg_kvm = None,
       arg_no_gui = True,
       arg_gdb = False,
       arg_pcap = None,
       arg_secondary_network = False,
       arg_host_forward = None \<rparr>"

text \<open>The object the constructor builds from these options in that directory.\<close>

definition plain_command :: QemuCommand where
  "plain_command =
     \<lparr> enable_u_boot = True,
       dry_run = False,
       overlay = None,
       host_fwd = None,
       kernel = None,
       drive_interface = ''ide'',
       machine = ''qemux86-64'',
       bios = Some ''/img/qemux86-64/u-boot-qemux86-64.rom'',
       image = ''/img/qemux86-64/core-qemux86-64.ota-ext4'',
       mac_address = ''ca:fe:00:00:00:01'',
       serial_port = 8990,
       ssh_port = 2222,
       mem = ''1G'',
       kvm = False,
       gui = False,
       gdb = False,
       pcap = None,
       secondary_network = False \<rparr>"

text \<open>The same with U-Boot disabled, and the world that construction leaves.\<close>

definition kernel_options :: options where
  "kernel_options = plain_options\<lparr>arg_uboot_enable := Some ''no''\<rparr>"

definition kernel_command :: QemuCommand where
  "kernel_command =
     plain_command
       \<lparr> enable_u_boot := False,
         kernel := Some ''/img/qemux86-64/bzImage-qemux86-64.bin'',
         drive_interface := ''virtio'',
         bios := None,
         image := ''/img/qemux86-64/core-qemux86-64.ext4'' \<rparr>"

definition kernel_world :: world where
  "kernel_world = build_world\<lparr>extensions := EXTENSIONS(''qemux86-64'' \<mapsto> ''ext4'')\<rparr>"

text \<open>The same with EFI requested as well.\<close>

definition efi_kernel_options :: options where
  "efi_kernel_options = plain_options\<lparr>arg_efi := True, arg_uboot_enable := Some ''no''\<rparr>"

definition efi_kernel_command :: QemuCommand where
  "efi_kernel_command = kernel_command\<lparr>kernel := None, bios := Some ''OVMF.fd''\<rparr>"



definition overlay_options :: options where
  "overlay_options = plain_options\<lparr>arg_overlay := Some ''/tmp/foo.img''\<rparr>"

text \<open>
  The same process with nothing on disk, and a dry run there for a machine that is named;
  then the build directory with the last ports of the range taken.
\<close>

definition empty_world :: world where
  "empty_world = build_world\<lparr>files := {}, dirs := Map.empty\<rparr>"

definition dry_options :: options where
  "dry_options = plain_options\<lparr>arg_machine := Some ''qemux86-64'', arg_dry_run := True\<rparr>"

definition crowded_world :: world where
  "crowded_world = build_world\<lparr>refused_ports := {65530, 65531, 65532, 65533, 65534, 65535}\<rparr>"

text \<open>
  Overlay options that leave the ground the claims stand on: with EFI requested, with an
  overlay in a directory that does not exist, with a directory given as the bootloader,
  with both artifacts named by their paths but an image directory that does not exist,
  and as a dry run; and direct-kernel options that name an image the build does not have.
\<close>

definition efi_overlay_options :: options where
  "efi_overlay_options = overlay_options\<lparr>arg_efi := True\<rparr>"

definition nodir_overlay_options :: options where
  "nodir_overlay_options = plain_options\<lparr>arg_overlay := Some ''/nodir/foo.img''\<rparr>"

definition dir_bootloader_options :: options where
  "dir_bootloader_options = overlay_options\<lparr>arg_bootloader := Some ''/img''\<rparr>"

definition stray_overlay_options :: options where
  "stray_overlay_options =
     overlay_options\<lparr>arg_dir := ''/none'',
                      arg_bootloader := Some ''/img/qemux86-64/u-boot-qemux86-64.rom'',
                      arg_imagename := ''/img/qemux86-64/core-qemux86-64.ota-ext4''\<rparr>"

definition dry_overlay_options :: options where
  "dry_overlay_options = overlay_options\<lparr>arg_dry_run := True\<rparr>"


section \<open>Lemmas\<close>

subsection \<open>What the helpers leave unchanged\<close>

lemma probe_ports_frame:
  "\<exists>out. snd (probe_ports w ports) = w\<lparr>stdout := out\<rparr>"
proof (induction ports arbitrary: w)
  case Nil
  have "snd (probe_ports w []) = w\<lparr>stdout := stdout w\<rparr>" by simp
  then show ?case ..
next
  case (Cons port ports)
  show ?case
  proof (cases "bind_outcome w port")
    case Bound
    then have "port \<notin> refused_ports w"
      by (simp add: bind_outcome_def split: if_splits)
    then have "insert port (refused_ports w) - {port} = refused_ports w"
      by auto
    with Bound have "snd (probe_ports w (port # ports)) = w\<lparr>stdout := stdout w\<rparr>"
      by (simp add: socket_bind_def socket_close_def)
    then show ?thesis ..
  next
    case Raises_socket_error
    let ?v = "print w (''Skipping port '' @ format_d port)"
    obtain out where "snd (probe_ports ?v ports) = ?v\<lparr>stdout := out\<rparr>"
      using Cons.IH by blast
    with Raises_socket_error
    have "snd (probe_ports w (port # ports)) = w\<lparr>stdout := out\<rparr>"
      by (simp add: socket_close_def print_def)
    then show ?thesis ..
  next
    case Raises_OverflowError
    then have "snd (probe_ports w (port # ports)) = w\<lparr>stdout := stdout w\<rparr>"
      by (simp add: socket_close_def)
    then show ?thesis ..
  qed
qed

lemma find_local_port_frame:
  "\<exists>out. snd (find_local_port w p) = w\<lparr>stdout := out\<rparr>"
  unfolding find_local_port_def by (rule probe_ports_frame)

lemma random_pairs_frame:
  "\<exists>k. snd (random_pairs n w) = w\<lparr>random_used := k\<rparr>"
proof (induction n arbitrary: w)
  case 0
  have "snd (random_pairs 0 w) = w\<lparr>random_used := random_used w\<rparr>" by simp
  then show ?case ..
next
  case (Suc n)
  let ?v = "snd (random_pair w)"
  have v: "?v = w\<lparr>random_used := Suc (Suc (random_used w))\<rparr>"
    by (simp add: random_pair_def random_choice_def split_def)
  obtain k where "snd (random_pairs n ?v) = ?v\<lparr>random_used := k\<rparr>"
    using Suc.IH by blast
  then have "snd (random_pairs (Suc n) w) = w\<lparr>random_used := k\<rparr>"
    by (simp add: split_def v)
  then show ?case ..
qed

lemma random_mac_frame:
  "\<exists>k. snd (random_mac w) = w\<lparr>random_used := k\<rparr>"
  using random_pairs_frame [of 4 w] by (simp add: random_mac_def split_def Let_def)

lemma select_mac_frame:
  "\<exists>k. snd (select_mac w args) = w\<lparr>random_used := k\<rparr>"
proof (cases "given (arg_mac args)")
  case None
  then show ?thesis
    using random_mac_frame [of w] by (simp add: select_mac_def)
next
  case (Some a)
  then have "snd (select_mac w args) = w\<lparr>random_used := random_used w\<rparr>"
    by (simp add: select_mac_def)
  then show ?thesis ..
qed

text \<open>The last part of the constructor touches the random generator and standard output only.\<close>

lemma finish_init_frame:
  "\<exists>k out. snd (finish_init w args enable m boot img) = w\<lparr>random_used := k, stdout := out\<rparr>"
proof -
  obtain mac w1 where 1: "select_mac w args = (mac, w1)"
    by (cases "select_mac w args")
  obtain r2 w2 where 2: "find_local_port w1 8990 = (r2, w2)"
    by (cases "find_local_port w1 8990")
  obtain r3 w3 where 3: "find_local_port w2 2222 = (r3, w3)"
    by (cases "find_local_port w2 2222")
  obtain k where f1: "w1 = w\<lparr>random_used := k\<rparr>"
    using select_mac_frame [of w args] 1 by auto
  obtain out2 where f2: "w2 = w1\<lparr>stdout := out2\<rparr>"
    using find_local_port_frame [of w1 8990] 2 by auto
  obtain out3 where f3: "w3 = w2\<lparr>stdout := out3\<rparr>"
    using find_local_port_frame [of w2 2222] 3 by auto
  have g2: "w2 = w\<lparr>random_used := k, stdout := out2\<rparr>"
    by (simp add: f1 f2)
  have g3: "w3 = w\<lparr>random_used := k, stdout := out3\<rparr>"
    by (simp add: f1 f2 f3)
  have "snd (finish_init w args enable m boot img) = w2
      \<or> snd (finish_init w args enable m boot img) = w3"
    by (simp add: finish_init_def 1 2 3 split: sum.splits)
  with g2 g3 show ?thesis by blast
qed


subsection \<open>What the stages of the constructor leave unchanged\<close>

lemma keep_beside_overlay_frame:
  "\<exists>F D C out. snd (keep_beside_overlay w dry ov src dst missing)
       = w\<lparr>files := F, dirs := D, copied := C, stdout := out\<rparr>
     \<and> files w \<subseteq> F \<and> (dry \<longrightarrow> F = files w \<and> D = dirs w \<and> C = copied w)"
proof -
  let ?r = "snd (keep_beside_overlay w dry ov src dst missing)"
  have "?r = w\<lparr>files := files ?r, dirs := dirs ?r, copied := copied ?r, stdout := stdout ?r\<rparr>
     \<and> files w \<subseteq> files ?r
     \<and> (dry \<longrightarrow> files ?r = files w \<and> dirs ?r = dirs w \<and> copied ?r = copied w)"
    by (auto simp: keep_beside_overlay_def print_def copyfile_def split: option.splits)
  then show ?thesis by blast
qed

lemma select_boot_frame:
  "\<exists>F D C out. snd (select_boot w args enable m) = w\<lparr>files := F, dirs := D, copied := C, stdout := out\<rparr>
     \<and> files w \<subseteq> F \<and> (arg_dry_run args \<longrightarrow> F = files w \<and> D = dirs w \<and> C = copied w)"
proof -
  have same: "\<exists>F D C out. w = w\<lparr>files := F, dirs := D, copied := C, stdout := out\<rparr>
     \<and> files w \<subseteq> F \<and> (arg_dry_run args \<longrightarrow> F = files w \<and> D = dirs w \<and> C = copied w)"
    by (rule exI [of _ "files w"], rule exI [of _ "dirs w"], rule exI [of _ "copied w"], rule exI [of _ "stdout w"]) simp
  show ?thesis
  proof (cases "\<not> arg_efi args \<and> enable \<and> given (arg_overlay args) \<noteq> None")
    case False
    then have "snd (select_boot w args enable m) = w"
      by (auto simp: select_boot_def Let_def split: sum.splits option.splits)
    with same show ?thesis by simp
  next
    case True
    then obtain ov where ov: "given (arg_overlay args) = Some ov" by auto
    let ?k = "keep_beside_overlay w (arg_dry_run args) ov (uboot_source w args m)
                (ov @ ''.u-boot.rom'') (UBootImageMissing (uboot_source w args m))"
    have "snd (select_boot w args enable m) = snd ?k"
      using True ov by (simp add: select_boot_def Let_def split: prod.splits sum.splits)
    then show ?thesis
      using keep_beside_overlay_frame
        [of w "arg_dry_run args" ov "uboot_source w args m" "ov @ ''.u-boot.rom''"
            "UBootImageMissing (uboot_source w args m)"]
      by simp
  qed
qed

lemma select_image_frame:
  "\<exists>F D C out. snd (select_image w args m) = w\<lparr>files := F, dirs := D, copied := C, stdout := out\<rparr>
     \<and> files w \<subseteq> F \<and> (arg_dry_run args \<longrightarrow> F = files w \<and> D = dirs w \<and> C = copied w)"
proof (cases "given (arg_overlay args)")
  case None
  then have "snd (select_image w args m) = w"
    by (simp add: select_image_def Let_def split: sum.splits)
  moreover have "w = w\<lparr>files := files w, dirs := dirs w, copied := copied w, stdout := stdout w\<rparr>"
    by simp
  ultimately show ?thesis by (metis subset_refl)
next
  case (Some ov)
  let ?k = "keep_beside_overlay w (arg_dry_run args) ov (base_image w args m)
              (ov @ ''.img'') (OSImageMissing (base_image w args m))"
  have "snd (select_image w args m) = snd ?k"
    using Some by (simp add: select_image_def Let_def split: prod.splits sum.splits)
  then show ?thesis
    using keep_beside_overlay_frame
      [of w "arg_dry_run args" ov "base_image w args m" "ov @ ''.img''"
          "OSImageMissing (base_image w args m)"]
    by simp
qed

lemma boot_stage_frame:
  "\<exists>F D C out. snd (boot_stage w args)
       = w\<lparr>extensions := table_after w args, files := F, dirs := D, copied := C, stdout := out\<rparr>
     \<and> files w \<subseteq> F \<and> (arg_dry_run args \<longrightarrow> F = files w \<and> D = dirs w \<and> C = copied w)"
proof -
  let ?v = "w\<lparr>extensions := table_after w args\<rparr>"
  have same: "\<exists>F D C out. ?v = w\<lparr>extensions := table_after w args, files := F, dirs := D, copied := C, stdout := out\<rparr>
     \<and> files w \<subseteq> F \<and> (arg_dry_run args \<longrightarrow> F = files w \<and> D = dirs w \<and> C = copied w)"
    by (rule exI [of _ "files w"], rule exI [of _ "dirs w"], rule exI [of _ "copied w"], rule exI [of _ "stdout w"]) simp
  show ?thesis
  proof (cases "\<not> uboot_enabled args \<and> truthy (arg_overlay args)")
    case True
    then have "snd (boot_stage w args) = ?v"
      by (simp add: boot_stage_def table_after_def)
    with same show ?thesis by simp
  next
    case False
    then have v: "override_extension w (uboot_enabled args) = ?v"
      by (auto simp: override_extension_def table_after_def)
    show ?thesis
    proof (cases "detect_machine ?v args")
      case (Inl e)
      then have "snd (boot_stage w args) = ?v"
        using False v by (auto simp: boot_stage_def Let_def)
      with same show ?thesis by simp
    next
      case (Inr m)
      then have "snd (boot_stage w args) = snd (select_boot ?v args (uboot_enabled args) m)"
        using False v by (auto simp: boot_stage_def Let_def split: prod.splits sum.splits)
      then show ?thesis
        using select_boot_frame [of ?v args "uboot_enabled args" m] by simp
    qed
  qed
qed

lemma QemuCommand_init_frame:
  "\<exists>F D C k out. snd (QemuCommand_init w args)
       = w\<lparr>extensions := table_after w args, files := F, dirs := D, copied := C,
            random_used := k, stdout := out\<rparr>
     \<and> files w \<subseteq> F \<and> (arg_dry_run args \<longrightarrow> F = files w \<and> D = dirs w \<and> C = copied w)"
proof -
  obtain r2 w2 where b: "boot_stage w args = (r2, w2)"
    by (cases "boot_stage w args")
  obtain F2 D2 C2 out2 where w2:
    "w2 = w\<lparr>extensions := table_after w args, files := F2, dirs := D2, copied := C2, stdout := out2\<rparr>"
    "files w \<subseteq> F2" "arg_dry_run args \<longrightarrow> F2 = files w \<and> D2 = dirs w \<and> C2 = copied w"
    using boot_stage_frame [of w args] b by auto
  have start: "w2 = w\<lparr>extensions := table_after w args, files := F2, dirs := D2, copied := C2,
                      random_used := random_used w, stdout := out2\<rparr>"
    by (simp add: w2(1))
  show ?thesis
  proof (cases r2)
    case (Inl e)
    then have "snd (QemuCommand_init w args) = w2"
      by (simp add: QemuCommand_init_def b)
    with start w2(2,3) show ?thesis by blast
  next
    case (Inr x)
    obtain enable m boot where x: "x = (enable, m, boot)"
      by (cases x)
    obtain r3 w3 where i: "select_image w2 args m = (r3, w3)"
      by (cases "select_image w2 args m")
    obtain F3 D3 C3 out3 where w3:
      "w3 = w2\<lparr>files := F3, dirs := D3, copied := C3, stdout := out3\<rparr>"
      "files w2 \<subseteq> F3" "arg_dry_run args \<longrightarrow> F3 = files w2 \<and> D3 = dirs w2 \<and> C3 = copied w2"
      using select_image_frame [of w2 args m] i by auto
    have mid: "w3 = w\<lparr>extensions := table_after w args, files := F3, dirs := D3, copied := C3,
                      random_used := random_used w, stdout := out3\<rparr>"
      by (simp add: w3(1) w2(1))
    have sub: "files w \<subseteq> F3"
      using w2(2) w3(2) by (simp add: w2(1))
    have dry: "arg_dry_run args \<longrightarrow> F3 = files w \<and> D3 = dirs w \<and> C3 = copied w"
      using w2(3) w3(3) by (simp add: w2(1))
    show ?thesis
    proof (cases r3)
      case (Inl e)
      then have "snd (QemuCommand_init w args) = w3"
        by (simp add: QemuCommand_init_def b Inr x i)
      with mid sub dry show ?thesis by blast
    next
      case img: (Inr img)
      obtain k out where
        "snd (finish_init w3 args enable m boot img) = w3\<lparr>random_used := k, stdout := out\<rparr>"
        using finish_init_frame by blast
      moreover have "snd (QemuCommand_init w args) = snd (finish_init w3 args enable m boot img)"
        by (simp add: QemuCommand_init_def b Inr x i img)
      ultimately have "snd (QemuCommand_init w args)
          = w\<lparr>extensions := table_after w args, files := F3, dirs := D3, copied := C3,
               random_used := k, stdout := out\<rparr>"
        by (simp add: mid)
      with sub dry show ?thesis by blast
    qed
  qed
qed

subsection \<open>What a successful construction went through\<close>

lemma boot_stage_Inr:
  assumes "boot_stage w args = (Inr (enable, m, boot), w2)"
  shows "enable = uboot_enabled args"
    and "enable \<or> \<not> truthy (arg_overlay args)"
    and "detect_machine (override_extension w enable) args = Inr m"
    and "select_boot (override_extension w enable) args enable m = (Inr boot, w2)"
  using assms
  by (auto simp: boot_stage_def Let_def split: if_splits sum.splits prod.splits)

lemma QemuCommand_init_Inr:
  assumes "QemuCommand_init w args = (Inr c, w')"
  obtains enable m boot w2 img w3 where
    "boot_stage w args = (Inr (enable, m, boot), w2)"
    "select_image w2 args m = (Inr img, w3)"
    "finish_init w3 args enable m boot img = (Inr c, w')"
  using assms
  by (auto simp: QemuCommand_init_def split: prod.splits sum.splits)

lemma finish_init_Inr:
  assumes "finish_init w args enable m boot img = (Inr c, w')"
  shows "enable_u_boot c = enable" and "machine c = m" and "image c = img"
    and "bios c = fst boot" and "kernel c = snd boot" and "overlay c = arg_overlay args"
    and "drive_interface c = (if enable then ''ide'' else ''virtio'')"
    and "secondary_network c = arg_secondary_network args"
  using assms
  by (auto simp: finish_init_def Let_def split: prod.splits sum.splits)

lemma select_image_Inr:
  assumes "select_image w args m = (Inr img, w')"
  shows "img = (case given (arg_overlay args) of
                  Some ov \<Rightarrow> ov @ ''.img''
                | None \<Rightarrow> realpath w (base_image w args m))"
  using assms
  by (auto simp: select_image_def Let_def split: option.splits prod.splits sum.splits)

lemma select_boot_Inr:
  assumes "select_boot w args enable m = (Inr boot, w')"
  shows "arg_efi args \<Longrightarrow> boot = (Some ''OVMF.fd'', None)"
    and "\<not> arg_efi args \<Longrightarrow> \<not> enable \<Longrightarrow>
           boot = (None, Some (abspath w (join (arg_dir args) [m, ''bzImage-qemux86-64.bin''])))"
    and "enable \<Longrightarrow> fst boot \<noteq> None \<and> snd boot = None"
  using assms
  by (auto simp: select_boot_def Let_def split: if_splits option.splits prod.splits sum.splits)

lemma extension_for_initial:
  assumes "extensions v = (if uboot then EXTENSIONS else EXTENSIONS(''qemux86-64'' \<mapsto> ''ext4''))"
  shows "extension_for v m = spec_extension m uboot"
  using assms by (simp add: extension_for_def spec_extension_def EXTENSIONS_def)


lemma QemuCommand_init_table:
  "extensions (snd (QemuCommand_init w args)) = table_after w args"
proof -
  obtain F D C k out where "snd (QemuCommand_init w args)
       = w\<lparr>extensions := table_after w args, files := F, dirs := D, copied := C,
            random_used := k, stdout := out\<rparr>"
    using QemuCommand_init_frame [of w args] by blast
  then show ?thesis by simp
qed

lemma boot_stage_table:
  "extensions (snd (boot_stage w args)) = table_after w args"
  and boot_stage_realpath: "realpath (snd (boot_stage w args)) = realpath w"
proof -
  obtain F D C out where "snd (boot_stage w args)
       = w\<lparr>extensions := table_after w args, files := F, dirs := D, copied := C, stdout := out\<rparr>"
    using boot_stage_frame [of w args] by blast
  then show "extensions (snd (boot_stage w args)) = table_after w args"
    and "realpath (snd (boot_stage w args)) = realpath w" by simp_all
qed


text \<open>The disk image of a successful construction, in terms of the table it read.\<close>

lemma QemuCommand_init_image:
  assumes init: "QemuCommand_init w args = (Inr c, w')"
  shows "enable_u_boot c = uboot_enabled args"
    and "uboot_enabled args \<or> \<not> truthy (arg_overlay args)"
    and "image c = (case given (arg_overlay args) of
                      Some ov \<Rightarrow> ov @ ''.img''
                    | None \<Rightarrow> realpath w (base_image (snd (boot_stage w args)) args (machine c)))"
proof -
  from init obtain enable m boot w2 img w3 where
    b: "boot_stage w args = (Inr (enable, m, boot), w2)" and
    i: "select_image w2 args m = (Inr img, w3)" and
    f: "finish_init w3 args enable m boot img = (Inr c, w')"
    by (rule QemuCommand_init_Inr)
  show "enable_u_boot c = uboot_enabled args"
    using boot_stage_Inr(1) [OF b] finish_init_Inr(1) [OF f] by simp
  show "uboot_enabled args \<or> \<not> truthy (arg_overlay args)"
    using boot_stage_Inr(1,2) [OF b] by simp
  have "realpath w2 = realpath w"
    using boot_stage_realpath [of w args] b by simp
  then show "image c = (case given (arg_overlay args) of
                      Some ov \<Rightarrow> ov @ ''.img''
                    | None \<Rightarrow> realpath w (base_image (snd (boot_stage w args)) args (machine c)))"
    using select_image_Inr [OF i] finish_init_Inr(2,3) [OF f] b
    by (simp split: option.splits)
qed

subsection \<open>The table through a process\<close>

lemma table_after_overrides:
  "table_after w args =
     (if overrides_table args then (extensions w)(''qemux86-64'' \<mapsto> ''ext4'') else extensions w)"
  by (simp add: table_after_def overrides_table_def)

lemma constructions_table:
  "extensions (constructions w earlier) =
     (if list_ex overrides_table earlier then (extensions w)(''qemux86-64'' \<mapsto> ''ext4'')
      else extensions w)"
proof (induction earlier arbitrary: w)
  case Nil
  show ?case by simp
next
  case (Cons args rest)
  have "extensions (snd (QemuCommand_init w args)) = table_after w args"
    by (rule QemuCommand_init_table)
  then show ?case
    using Cons.IH [of "snd (QemuCommand_init w args)"]
    by (auto simp: table_after_overrides)
qed


subsection \<open>Standard output only grows\<close>

lemma probe_ports_stdout:
  "\<exists>rest. stdout (snd (probe_ports w ports)) = stdout w @ rest"
proof (induction ports arbitrary: w)
  case Nil
  show ?case by simp
next
  case (Cons port ports)
  show ?case
  proof (cases "bind_outcome w port")
    case Raises_socket_error
    let ?v = "print w (''Skipping port '' @ format_d port)"
    obtain rest where "stdout (snd (probe_ports ?v ports)) = stdout ?v @ rest"
      using Cons.IH by blast
    then have "stdout (snd (probe_ports w (port # ports)))
        = stdout w @ (''Skipping port '' @ format_d port) # rest"
      using Raises_socket_error by (simp add: socket_close_def print_def)
    then show ?thesis ..
  qed (simp_all add: socket_bind_def socket_close_def)
qed

lemma finish_init_stdout:
  "\<exists>rest. stdout (snd (finish_init w args enable m boot img)) = stdout w @ rest"
proof -
  obtain mac w1 where 1: "select_mac w args = (mac, w1)"
    by (cases "select_mac w args")
  obtain r2 w2 where 2: "find_local_port w1 8990 = (r2, w2)"
    by (cases "find_local_port w1 8990")
  obtain r3 w3 where 3: "find_local_port w2 2222 = (r3, w3)"
    by (cases "find_local_port w2 2222")
  obtain k where "w1 = w\<lparr>random_used := k\<rparr>"
    using select_mac_frame [of w args] 1 by auto
  then have s1: "stdout w1 = stdout w" by simp
  obtain rest2 where s2: "stdout w2 = stdout w1 @ rest2"
    using probe_ports_stdout [of w1 "[8990 .. 8990 + 10 - 1]"] 2
    by (auto simp: find_local_port_def)
  obtain rest3 where s3: "stdout w3 = stdout w2 @ rest3"
    using probe_ports_stdout [of w2 "[2222 .. 2222 + 10 - 1]"] 3
    by (auto simp: find_local_port_def)
  have "snd (finish_init w args enable m boot img) = w2
      \<or> snd (finish_init w args enable m boot img) = w3"
    by (simp add: finish_init_def 1 2 3 split: sum.splits)
  then show ?thesis
    using s1 s2 s3 by auto
qed

subsection \<open>Paths beside the overlay\<close>

lemma given_Some:
  assumes "given v = Some s"
  shows "v = Some s" and "s \<noteq> []"
  using assms by (auto simp: given_def split: option.splits if_splits)

lemma dirname_beside:
  "dirname (ov @ ''.u-boot.rom'') = dirname ov"
  "dirname (ov @ ''.img'') = dirname ov"
  by (simp_all add: dirname_def)

lemma basename_beside:
  "basename (ov @ ''.u-boot.rom'') \<noteq> []"
  "basename (ov @ ''.img'') \<noteq> []"
  by (simp_all add: basename_def)

lemma add_entry_keys:
  "(add_entry listing dst d = None) = (listing d = None)"
  by (simp add: add_entry_def split: option.splits)

text \<open>A copy of a regular file to a new path in an existing directory succeeds.\<close>

lemma copyfile_new:
  assumes "exists w src" and "\<not> isdir w src" and "\<not> exists w dst"
      and "basename dst \<noteq> []" and "dirname dst = [] \<or> isdir w (dirname dst)"
  shows "copyfile w src dst
           = (Inr (), w\<lparr>files := insert dst (files w),
                         dirs := add_entry (dirs w) dst,
                         copied := copied w @ [(src, dst)]\<rparr>)"
proof -
  have "src \<noteq> dst" using assms(1,3) by auto
  moreover have "\<not> isdir w dst" using assms(3) by (simp add: isdir_def)
  ultimately have "copyfile_error w src dst = None"
    using assms by (simp add: copyfile_error_def)
  then show ?thesis by (simp add: copyfile_def)
qed

subsection \<open>The sample constructions\<close>

lemma lower_no: "lower ''no'' = ''no''"
  by (simp add: lower_def lower_char_def)

lemmas construction_steps =
  QemuCommand_init_def boot_stage_def uboot_enabled_def override_extension_def
  detect_machine_def given_def truthy_def isdir_def listdir_def select_boot_def uboot_source_def
  keep_beside_overlay_def copyfile_def copyfile_error_def add_entry_def dirname_def
  basename_def print_def
  check_present_def exists_def select_image_def base_image_def extension_for_def EXTENSIONS_def
  finish_init_def select_mac_def find_local_port_def bind_outcome_def socket_bind_def
  socket_close_def select_kvm_def Let_def upto_rec1 lower_def lower_char_def


lemma init_kernel:
  "QemuCommand_init build_world kernel_options = (Inr kernel_command, kernel_world)"
  by (simp add: construction_steps build_world_def plain_options_def plain_command_def
        kernel_options_def kernel_command_def kernel_world_def)

lemma init_plain_after_kernel:
  "QemuCommand_init kernel_world plain_options
     = (Inr (plain_command\<lparr>image := ''/img/qemux86-64/core-qemux86-64.ext4''\<rparr>), kernel_world)"
  by (simp add: construction_steps build_world_def plain_options_def plain_command_def
        kernel_world_def)

lemma boot_stage_plain:
  "snd (boot_stage build_world plain_options) = build_world"
  "snd (boot_stage kernel_world plain_options) = kernel_world"
  by (simp_all add: construction_steps build_world_def plain_options_def kernel_world_def)

subsection \<open>The port finder\<close>

lemma bind_outcome_print [simp]:
  "bind_outcome (print w line) port = bind_outcome w port"
  by (simp add: bind_outcome_def print_def)

lemma probe_ports_all_refused:
  assumes "\<forall>port \<in> set ports. bind_outcome w port = Raises_socket_error"
  shows "fst (probe_ports w ports) = Inl NoFreePort"
  using assms
  by (induction ports arbitrary: w) (simp_all add: socket_close_def)

lemma probe_ports_first_bound:
  assumes "\<forall>port \<in> set before. bind_outcome w port = Raises_socket_error"
      and "bind_outcome w port = Bound"
  shows "fst (probe_ports w (before @ port # after)) = Inr port"
  using assms
  by (induction before arbitrary: w) (simp_all add: socket_close_def)

lemma window_split:
  fixes p :: int
  assumes "n < 10"
  shows "[p .. p + 10 - 1] = [p .. p + int n - 1] @ (p + int n) # [p + int n + 1 .. p + 10 - 1]"
  using assms upto_split3 [of p "p + int n" "p + 10 - 1"] by simp

lemma refused_ports_find_local_port:
  "refused_ports (snd (find_local_port w p)) = refused_ports w"
proof -
  obtain out where "snd (find_local_port w p) = w\<lparr>stdout := out\<rparr>"
    using find_local_port_frame by blast
  then show ?thesis by simp
qed

subsection \<open>Copies beside the overlay\<close>

lemma keep_beside_overlay_present:
  assumes "exists w dst" and "keep_beside_overlay w dry ov src dst missing = (r, w')"
  shows "w' = w"
  using assms by (auto simp: keep_beside_overlay_def split: if_splits)

lemma select_boot_present:
  assumes "given (arg_overlay args) = Some ov" and "exists w (ov @ ''.u-boot.rom'')"
      and "select_boot w args enable m = (r, w')"
  shows "w' = w"
  using assms
  by (auto simp: select_boot_def Let_def split: if_splits prod.splits sum.splits
        dest: keep_beside_overlay_present)

lemma select_image_present:
  assumes "given (arg_overlay args) = Some ov" and "exists w (ov @ ''.img'')"
      and "select_image w args m = (r, w')"
  shows "w' = w"
  using assms
  by (auto simp: select_image_def Let_def split: prod.splits sum.splits
        dest: keep_beside_overlay_present)

text \<open>With both copies beside the overlay, a construction copies nothing.\<close>

lemma QemuCommand_init_present:
  assumes ov: "given (arg_overlay args) = Some ov"
      and rom: "exists w (ov @ ''.u-boot.rom'')"
      and img: "exists w (ov @ ''.img'')"
  shows "copied (snd (QemuCommand_init w args)) = copied w"
    and "files (snd (QemuCommand_init w args)) = files w"
proof -
  let ?v = "w\<lparr>extensions := table_after w args\<rparr>"
  have pres: "exists ?v (ov @ ''.u-boot.rom'')" "exists ?v (ov @ ''.img'')"
    using rom img by (simp_all add: exists_def)
  have stage: "snd (boot_stage w args) = w \<or> snd (boot_stage w args) = ?v"
  proof (cases "\<not> uboot_enabled args \<and> truthy (arg_overlay args)")
    case True
    then show ?thesis by (simp add: boot_stage_def)
  next
    case False
    then have v: "override_extension w (uboot_enabled args) = ?v"
      by (auto simp: override_extension_def table_after_def)
    have "snd (boot_stage w args) = ?v"
      using False v
      by (auto simp: boot_stage_def Let_def split: sum.splits prod.splits
            dest: select_boot_present [OF ov pres(1)])
    then show ?thesis ..
  qed
  obtain r2 w2 where b: "boot_stage w args = (r2, w2)"
    by (cases "boot_stage w args")
  with stage have w2: "w2 = w \<or> w2 = ?v" by simp
  then have pres2: "exists w2 (ov @ ''.img'')" and same2: "copied w2 = copied w" "files w2 = files w"
    using img pres(2) by auto
  have "copied (snd (QemuCommand_init w args)) = copied w
      \<and> files (snd (QemuCommand_init w args)) = files w"
  proof (cases r2)
    case (Inl e)
    then show ?thesis
      using same2 by (simp add: QemuCommand_init_def b)
  next
    case (Inr x)
    obtain enable m boot where x: "x = (enable, m, boot)"
      by (cases x)
    obtain r3 where r3: "select_image w2 args m = (r3, w2)"
      using select_image_present [OF ov pres2]
      by (cases "select_image w2 args m") auto
    show ?thesis
    proof (cases r3)
      case (Inl e)
      then show ?thesis
        using same2 by (simp add: QemuCommand_init_def b Inr x r3)
    next
      case img: (Inr img)
      obtain k out where
        "snd (finish_init w2 args enable m boot img) = w2\<lparr>random_used := k, stdout := out\<rparr>"
        using finish_init_frame by blast
      then show ?thesis
        using same2 by (simp add: QemuCommand_init_def b Inr x r3 img)
    qed
  qed
  then show "copied (snd (QemuCommand_init w args)) = copied w"
    and "files (snd (QemuCommand_init w args)) = files w" by simp_all
qed

subsection \<open>The errors of a construction\<close>

lemma probe_ports_error:
  "fst (probe_ports w ports) = Inl e \<Longrightarrow> e = NoFreePort \<or> e = OverflowError"
  by (induction ports arbitrary: w) (auto split: bind_result.splits)

lemma finish_init_error:
  assumes "finish_init w args enable m boot img = (Inl e, w')"
  shows "e = NoFreePort \<or> e = OverflowError"
proof -
  obtain mac w1 where 1: "select_mac w args = (mac, w1)"
    by (cases "select_mac w args")
  obtain r2 w2 where 2: "find_local_port w1 8990 = (r2, w2)"
    by (cases "find_local_port w1 8990")
  obtain r3 w3 where 3: "find_local_port w2 2222 = (r3, w3)"
    by (cases "find_local_port w2 2222")
  have "r2 = Inl e \<or> r3 = Inl e"
    using assms by (auto simp: finish_init_def 1 2 3 split: sum.splits)
  then have "fst (probe_ports w1 [8990 .. 8990 + 10 - 1]) = Inl e
      \<or> fst (probe_ports w2 [2222 .. 2222 + 10 - 1]) = Inl e"
    using 2 3 by (auto simp: find_local_port_def)
  then show ?thesis
    using probe_ports_error by blast
qed

subsection \<open>Tokens of the command line\<close>

lemma followed_by_append1:
  "followed_by x y ts \<Longrightarrow> followed_by x y (ts @ us)"
  by (induction x y ts rule: followed_by.induct) auto

lemma followed_by_append2:
  "followed_by x y us \<Longrightarrow> followed_by x y (ts @ us)"
proof (induction ts)
  case Nil
  then show ?case by simp
next
  case (Cons t ts)
  then show ?case
    by (cases "ts @ us") auto
qed

lemma followed_by_head:
  "followed_by x y (x # y # ts)"
  by simp

lemma command_line_kernel:
  assumes "\<not> enable_u_boot c"
  shows "\<exists>ts. fst (command_line v c) = Inr ts
     \<and> followed_by (Some ''-kernel'') (kernel c) ts
     \<and> followed_by (Some ''-append'')
          (Some ''root=/dev/vda rw highres=off console=ttyS0 ip=dhcp'') ts
     \<and> (\<not> truthy (overlay c) \<longrightarrow>
          followed_by (Some ''-drive'')
            (Some (''file='' @ image c @ '',if='' @ drive_interface c @ '',format=raw,snapshot=on'')) ts)"
proof -
  obtain secondary v' where s: "secondary_tokens v c = (secondary, v')"
    by (cases "secondary_tokens v c")
  let ?boot = "[Some ''-kernel'', kernel c]"
  let ?rest = "device_tokens c @ secondary @ display_tokens c @ tail_tokens c"
  let ?ts = "[Some ''qemu-system-x86_64''] @ ?boot @ drive_tokens c @ ?rest"
  have ts: "fst (command_line v c) = Inr ?ts"
    using assms by (simp add: command_line_def boot_tokens_def s)
  have k: "followed_by (Some ''-kernel'') (kernel c) ?ts"
    by simp
  have "followed_by (Some ''-append'')
          (Some ''root=/dev/vda rw highres=off console=ttyS0 ip=dhcp'') (tail_tokens c)"
    using assms by (auto simp: tail_tokens_def intro: followed_by_append2)
  then have a: "followed_by (Some ''-append'')
          (Some ''root=/dev/vda rw highres=off console=ttyS0 ip=dhcp'') ?ts"
    by (intro followed_by_append2)
  have d: "followed_by (Some ''-drive'')
            (Some (''file='' @ image c @ '',if='' @ drive_interface c @ '',format=raw,snapshot=on'')) ?ts"
    if "\<not> truthy (overlay c)"
  proof -
    have "followed_by (Some ''-drive'')
            (Some (''file='' @ image c @ '',if='' @ drive_interface c @ '',format=raw,snapshot=on''))
            (drive_tokens c @ ?rest)"
      using that by (intro followed_by_append1) (simp add: drive_tokens_def)
    then show ?thesis
      by (rule followed_by_append2 [OF followed_by_append2])
  qed
  from ts k a d show ?thesis by blast
qed

lemmas command_line_steps =
  command_line_def boot_tokens_def drive_tokens_def device_tokens_def secondary_tokens_def
  display_tokens_def tail_tokens_def netuser_def format_d_def decimal.simps given_def truthy_def



section \<open>The claims\<close>

subsection \<open>C1: an overlay needs U-Boot\<close>

text \<open>
  C1. Whenever an overlay path is given (a non-empty string) and \<^verbatim>\<open>uboot_enable\<close> is a
  string that does not lower to \<^verbatim>\<open>yes\<close>, \<^verbatim>\<open>true\<close> or \<^verbatim>\<open>1\<close>, the constructor
  raises the \<^verbatim>\<open>EnvironmentError\<close> of line 54, a configuration error, whatever the other
  options and the world are; no object is built and the world is as it was.
\<close>

theorem overlay_requires_uboot:
  assumes "truthy (arg_overlay args)"
      and "arg_uboot_enable args = Some v"
      and "lower v \<notin> {''yes'', ''true'', ''1''}"
  shows "QemuCommand_init w args = (Inl OverlayWithoutUBoot, w)
       \<and> classify OverlayWithoutUBoot = ConfigurationError"
  using assms
  by (simp add: QemuCommand_init_def boot_stage_def uboot_enabled_def)

theorem overlay_requires_uboot_witness:
  "truthy (Some ''foo.img'') \<and> lower ''no'' \<notin> {''yes'', ''true'', ''1''}
   \<and> QemuCommand_init build_world
        (plain_options\<lparr>arg_overlay := Some ''foo.img'', arg_uboot_enable := Some ''no'',
                        arg_efi := True, arg_dry_run := True\<rparr>)
      = (Inl OverlayWithoutUBoot, build_world)"
proof -
  let ?args = "plain_options\<lparr>arg_overlay := Some ''foo.img'', arg_uboot_enable := Some ''no'',
                        arg_efi := True, arg_dry_run := True\<rparr>"
  have 1: "truthy (arg_overlay ?args)" by (simp add: truthy_def given_def)
  have 2: "arg_uboot_enable ?args = Some ''no''" by simp
  have 3: "lower ''no'' \<notin> {''yes'', ''true'', ''1''}" by (simp add: lower_def lower_char_def)
  show ?thesis
    using overlay_requires_uboot [OF 1 2 3, of build_world] 3
    by (simp add: truthy_def given_def)
qed

subsection \<open>C2: the extension of the synthesized image path\<close>

text \<open>
  C2 as the specification states it fails in a process where an earlier construction
  disabled U-Boot: the table still holds \<^verbatim>\<open>ext4\<close> for \<^verbatim>\<open>qemux86-64\<close>, and a
  construction with U-Boot enabled synthesizes a path that ends in \<^verbatim>\<open>.ext4\<close>, where
  the claim says \<^verbatim>\<open>.ota-ext4\<close>.
\<close>

theorem base_image_extension_counterexample:
  "QemuCommand_init build_world kernel_options = (Inr kernel_command, kernel_world)
   \<and> QemuCommand_init kernel_world plain_options
        = (Inr (plain_command\<lparr>image := ''/img/qemux86-64/core-qemux86-64.ext4''\<rparr>), kernel_world)
   \<and> enable_u_boot plain_command
   \<and> machine plain_command = ''qemux86-64''
   \<and> \<not> exists (snd (boot_stage kernel_world plain_options)) (arg_imagename plain_options)
   \<and> base_image (snd (boot_stage kernel_world plain_options)) plain_options ''qemux86-64''
        \<noteq> join (arg_dir plain_options)
             [''qemux86-64'',
              arg_imagename plain_options @ ''-'' @ ''qemux86-64'' @ ''.''
                @ spec_extension ''qemux86-64'' True]"
  unfolding init_kernel init_plain_after_kernel boot_stage_plain
  by (simp add: plain_command_def exists_def kernel_world_def build_world_def
        plain_options_def base_image_def extension_for_def spec_extension_def)

text \<open>
  C2, amended. Take a process that started with the table as the module defines it and
  has made any constructions since. Every successful construction for which the image
  name is not an existing path when line 108 asks has the base image
  \<^verbatim>\<open>join(dir, machine, imagename-machine.ext)\<close>, with the extension the specification
  states, except that the extension for \<^verbatim>\<open>qemux86-64\<close> is \<^verbatim>\<open>ext4\<close> not only when
  U-Boot is disabled in this construction but also when an earlier construction of the
  process reached line 59. \<^verbatim>\<open>self.image\<close> is the \<^verbatim>\<open>realpath\<close> of the base image, or
  the copy beside the overlay when an overlay is given.
\<close>

theorem base_image_extension:
  assumes "extensions start = EXTENSIONS"
      and "extensions w = extensions (constructions start earlier)"
      and "QemuCommand_init w args = (Inr c, w')"
      and "\<not> exists (snd (boot_stage w args)) (arg_imagename args)"
  shows "base_image (snd (boot_stage w args)) args (machine c)
           = join (arg_dir args)
               [machine c,
                arg_imagename args @ ''-'' @ machine c @ ''.''
                  @ spec_extension (machine c)
                      (enable_u_boot c \<and> \<not> list_ex overrides_table earlier)]
       \<and> image c = (case given (arg_overlay args) of
                      Some ov \<Rightarrow> ov @ ''.img''
                    | None \<Rightarrow> realpath w (base_image (snd (boot_stage w args)) args (machine c)))"
proof -
  note facts = QemuCommand_init_image [OF assms(3)]
  have "extensions w
          = (if list_ex overrides_table earlier then EXTENSIONS(''qemux86-64'' \<mapsto> ''ext4'')
             else EXTENSIONS)"
    using assms(1,2) by (simp add: constructions_table)
  then have "extensions (snd (boot_stage w args))
          = (if enable_u_boot c \<and> \<not> list_ex overrides_table earlier then EXTENSIONS
             else EXTENSIONS(''qemux86-64'' \<mapsto> ''ext4''))"
    using facts(1,2) by (auto simp: boot_stage_table table_after_def)
  then have "extension_for (snd (boot_stage w args)) (machine c)
          = spec_extension (machine c) (enable_u_boot c \<and> \<not> list_ex overrides_table earlier)"
    by (rule extension_for_initial)
  then show ?thesis
    using assms(4) facts(3) by (simp add: base_image_def)
qed

theorem base_image_extension_witness:
  "extensions build_world = EXTENSIONS
   \<and> extensions kernel_world = extensions (constructions build_world [kernel_options])
   \<and> list_ex overrides_table [kernel_options]
   \<and> QemuCommand_init kernel_world plain_options
        = (Inr (plain_command\<lparr>image := ''/img/qemux86-64/core-qemux86-64.ext4''\<rparr>), kernel_world)
   \<and> \<not> exists (snd (boot_stage kernel_world plain_options)) (arg_imagename plain_options)
   \<and> base_image (snd (boot_stage kernel_world plain_options)) plain_options ''qemux86-64''
        = ''/img/qemux86-64/core-qemux86-64.ext4''"
proof -
  let ?c = "plain_command\<lparr>image := ''/img/qemux86-64/core-qemux86-64.ext4''\<rparr>"
  have 1: "extensions build_world = EXTENSIONS"
    by (simp add: build_world_def)
  have 2: "extensions kernel_world = extensions (constructions build_world [kernel_options])"
    by (simp add: init_kernel)
  have 4: "\<not> exists (snd (boot_stage kernel_world plain_options)) (arg_imagename plain_options)"
    unfolding boot_stage_plain
    by (simp add: exists_def kernel_world_def build_world_def plain_options_def)
  have 5: "list_ex overrides_table [kernel_options]"
    by (simp add: overrides_table_def uboot_enabled_def truthy_def given_def kernel_options_def
          plain_options_def lower_def lower_char_def)
  have c: "machine ?c = ''qemux86-64''" "enable_u_boot ?c"
    by (simp_all add: plain_command_def)
  show ?thesis
    using base_image_extension [OF 1 2 init_plain_after_kernel 4] 1 2 4 5 init_plain_after_kernel
    unfolding boot_stage_plain c
    by (simp add: spec_extension_def plain_options_def)
qed

subsection \<open>C3: EFI with U-Boot disabled\<close>

text \<open>
  C3 fails on the code when EFI is requested and U-Boot is disabled. The constructor takes
  the EFI branch first and assigns \<^verbatim>\<open>OVMF.fd\<close> to \<^verbatim>\<open>self.bios\<close>, but
  \<^verbatim>\<open>command_line\<close> looks at \<^verbatim>\<open>self.enable_u_boot\<close> alone: the command holds
  \<^verbatim>\<open>-kernel\<close> followed by the \<open>None\<close> that \<^verbatim>\<open>self.kernel\<close> was left with, no
  \<^verbatim>\<open>-bios\<close>, and the \<^verbatim>\<open>-append\<close> of a direct kernel boot.
\<close>

theorem efi_without_uboot_command_line:
  "arg_efi efi_kernel_options
   \<and> QemuCommand_init build_world efi_kernel_options = (Inr efi_kernel_command, kernel_world)
   \<and> bios efi_kernel_command = Some ''OVMF.fd''
   \<and> fst (command_line kernel_world efi_kernel_command)
       = Inr [Some ''qemu-system-x86_64'', Some ''-kernel'', None, Some ''-drive'',
              Some ''file=/img/qemux86-64/core-qemux86-64.ext4,if=virtio,format=raw,snapshot=on'',
              Some ''-serial'', Some ''tcp:127.0.0.1:8990,server,nowait'',
              Some ''-m'', Some ''1G'', Some ''-object'',
              Some ''rng-random,id=rng0,filename=/dev/urandom'', Some ''-device'',
              Some ''virtio-rng-pci,rng=rng0'', Some ''-net'',
              Some ''user,hostfwd=tcp:0.0.0.0:2222-:22,restrict=off'',
              Some ''-net'', Some ''nic,macaddr=ca:fe:00:00:00:01'',
              Some ''-nographic'', Some ''-monitor'', Some ''null'', Some ''-cpu'',
              Some ''Haswell'', Some ''-append'',
              Some ''root=/dev/vda rw highres=off console=ttyS0 ip=dhcp'']"
proof -
  have "QemuCommand_init build_world efi_kernel_options = (Inr efi_kernel_command, kernel_world)"
    by (simp add: construction_steps build_world_def plain_options_def plain_command_def
          efi_kernel_options_def efi_kernel_command_def kernel_command_def kernel_world_def)
  then show ?thesis
    by (simp add: command_line_steps efi_kernel_options_def efi_kernel_command_def
          kernel_command_def plain_command_def)
qed

subsection \<open>C4: a dry run\<close>

text \<open>
  C4 as the specification states it fails when an overlay is requested: with nothing on
  disk, the check of line 88 raises the \<^verbatim>\<open>ValueError\<close> for the missing U-Boot image,
  dry run or not.
\<close>

theorem dry_run_copies_nothing_counterexample:
  "arg_dry_run (dry_options\<lparr>arg_overlay := Some ''/tmp/foo.img''\<rparr>)
   \<and> files empty_world = {}
   \<and> QemuCommand_init empty_world (dry_options\<lparr>arg_overlay := Some ''/tmp/foo.img''\<rparr>)
      = (Inl (UBootImageMissing ''/img/qemux86-64/u-boot-qemux86-64.rom''), empty_world)
   \<and> classify (UBootImageMissing ''/img/qemux86-64/u-boot-qemux86-64.rom'')
      = MissingArtifactError"
  by (simp add: construction_steps empty_world_def build_world_def dry_options_def
        plain_options_def)

text \<open>
  C4, amended. With the dry-run flag set, a construction copies no file, whatever is on
  disk: the files, the listings and the list of copies are as before. When an overlay is
  requested with U-Boot enabled, neither the overlay nor the two files beside it exist,
  the machine resolves, and the artifacts that would be copied are on disk (the U-Boot
  image unless EFI is requested, and the base image), the construction prints the copy
  commands in place of the copies, \<^verbatim>\<open>cp <source> <overlay>.u-boot.rom\<close> unless EFI is
  requested and then \<^verbatim>\<open>cp <image> <overlay>.img\<close>, and raises no missing-artifact
  error, although the files beside the overlay that it resolves to are absent.
\<close>

theorem dry_run_copies_nothing:
  assumes "arg_dry_run args"
  shows "files (snd (QemuCommand_init w args)) = files w
     \<and> dirs (snd (QemuCommand_init w args)) = dirs w
     \<and> copied (snd (QemuCommand_init w args)) = copied w
     \<and> (given (arg_overlay args) = Some ov \<and> uboot_enabled args
          \<and> \<not> exists w ov \<and> \<not> exists w (ov @ ''.u-boot.rom'') \<and> \<not> exists w (ov @ ''.img'')
          \<and> detect_machine w args = Inr m
          \<and> (arg_efi args \<or> exists w (uboot_source w args m))
          \<and> exists w (base_image w args m)
        \<longrightarrow> (\<exists>rest. stdout (snd (QemuCommand_init w args))
                = stdout w
                  @ (if arg_efi args then []
                     else [''cp '' @ uboot_source w args m @ '' '' @ ov @ ''.u-boot.rom''])
                  @ [''cp '' @ base_image w args m @ '' '' @ ov @ ''.img''] @ rest)
            \<and> (\<forall>e. fst (QemuCommand_init w args) = Inl e
                  \<longrightarrow> classify e \<noteq> MissingArtifactError))"
proof -
  obtain F D C k out where
    "snd (QemuCommand_init w args)
       = w\<lparr>extensions := table_after w args, files := F, dirs := D, copied := C,
            random_used := k, stdout := out\<rparr>"
    "arg_dry_run args \<longrightarrow> F = files w \<and> D = dirs w \<and> C = copied w"
    using QemuCommand_init_frame [of w args] by blast
  then have same: "files (snd (QemuCommand_init w args)) = files w"
    "dirs (snd (QemuCommand_init w args)) = dirs w"
    "copied (snd (QemuCommand_init w args)) = copied w"
    using assms by simp_all
  have printed: "(\<exists>rest. stdout (snd (QemuCommand_init w args))
                = stdout w
                  @ (if arg_efi args then []
                     else [''cp '' @ uboot_source w args m @ '' '' @ ov @ ''.u-boot.rom''])
                  @ [''cp '' @ base_image w args m @ '' '' @ ov @ ''.img''] @ rest)
            \<and> (\<forall>e. fst (QemuCommand_init w args) = Inl e
                  \<longrightarrow> classify e \<noteq> MissingArtifactError)"
    if ov: "given (arg_overlay args) = Some ov" and en: "uboot_enabled args"
      and fresh: "\<not> exists w ov" "\<not> exists w (ov @ ''.u-boot.rom'')" "\<not> exists w (ov @ ''.img'')"
      and m: "detect_machine w args = Inr m"
      and rom: "arg_efi args \<or> exists w (uboot_source w args m)"
      and img: "exists w (base_image w args m)"
  proof -
    let ?rom = "ov @ ''.u-boot.rom''" and ?img = "ov @ ''.img''"
    let ?cp1 = "''cp '' @ uboot_source w args m @ '' '' @ ?rom"
    let ?cp2 = "''cp '' @ base_image w args m @ '' '' @ ?img"
    let ?lines1 = "if arg_efi args then [] else [?cp1]"
    let ?w2 = "w\<lparr>stdout := stdout w @ ?lines1\<rparr>"
    let ?boot = "(if arg_efi args then Some ''OVMF.fd'' else Some ?rom, None :: string option)"
    note arg = given_Some [OF ov]
    have boot: "select_boot w args True m = (Inr ?boot, ?w2)"
    proof (cases "arg_efi args")
      case True
      then show ?thesis by (simp add: select_boot_def)
    next
      case False
      then show ?thesis
        using ov arg assms fresh rom
        by (simp add: select_boot_def Let_def keep_beside_overlay_def print_def
              check_present_def exists_def)
    qed
    then have stage: "boot_stage w args = (Inr (True, m, ?boot), ?w2)"
      using en m by (simp add: boot_stage_def override_extension_def)
    have base: "base_image ?w2 args m = base_image w args m"
      by (simp add: base_image_def exists_def extension_for_def)
    let ?w3 = "?w2\<lparr>stdout := stdout ?w2 @ [?cp2]\<rparr>"
    have image: "select_image ?w2 args m = (Inr ?img, ?w3)"
      using ov arg assms fresh img
      by (simp add: select_image_def Let_def base keep_beside_overlay_def print_def
            check_present_def exists_def)
    have run: "QemuCommand_init w args = finish_init ?w3 args True m ?boot ?img"
      by (simp add: QemuCommand_init_def stage image)
    obtain rest where "stdout (snd (finish_init ?w3 args True m ?boot ?img)) = stdout ?w3 @ rest"
      using finish_init_stdout by blast
    then have "stdout (snd (QemuCommand_init w args)) = stdout w @ ?lines1 @ [?cp2] @ rest"
      by (simp add: run)
    moreover have "classify e \<noteq> MissingArtifactError"
      if "fst (QemuCommand_init w args) = Inl e" for e
    proof -
      have "fst (finish_init ?w3 args True m ?boot ?img) = Inl e"
        using that by (simp only: run)
      then have "finish_init ?w3 args True m ?boot ?img
          = (Inl e, snd (finish_init ?w3 args True m ?boot ?img))"
        by (metis prod.collapse)
      then have "e = NoFreePort \<or> e = OverflowError"
        by (rule finish_init_error)
      then show ?thesis by auto
    qed
    ultimately show ?thesis by blast
  qed
  with same show ?thesis by blast
qed

theorem dry_run_copies_nothing_witness:
  "arg_dry_run dry_overlay_options
   \<and> given (arg_overlay dry_overlay_options) = Some ''/tmp/foo.img''
   \<and> uboot_enabled dry_overlay_options
   \<and> \<not> arg_efi dry_overlay_options
   \<and> \<not> exists build_world ''/tmp/foo.img''
   \<and> \<not> exists build_world ''/tmp/foo.img.u-boot.rom''
   \<and> \<not> exists build_world ''/tmp/foo.img.img''
   \<and> detect_machine build_world dry_overlay_options = Inr ''qemux86-64''
   \<and> exists build_world ''/img/qemux86-64/u-boot-qemux86-64.rom''
   \<and> exists build_world ''/img/qemux86-64/core-qemux86-64.ota-ext4''
   \<and> files (snd (QemuCommand_init build_world dry_overlay_options)) = files build_world
   \<and> copied (snd (QemuCommand_init build_world dry_overlay_options)) = []
   \<and> stdout (snd (QemuCommand_init build_world dry_overlay_options))
       = [''cp /img/qemux86-64/u-boot-qemux86-64.rom /tmp/foo.img.u-boot.rom'',
          ''cp /img/qemux86-64/core-qemux86-64.ota-ext4 /tmp/foo.img.img'']
   \<and> \<not> isl (fst (QemuCommand_init build_world dry_overlay_options))"
proof -
  let ?args = dry_overlay_options
  have unfold: "dry_overlay_options
      = plain_options\<lparr>arg_overlay := Some ''/tmp/foo.img'', arg_dry_run := True\<rparr>"
    by (simp add: dry_overlay_options_def overlay_options_def)
  have 1: "arg_dry_run ?args"
    by (simp add: unfold)
  have ov: "given (arg_overlay ?args) = Some ''/tmp/foo.img''"
    by (simp add: unfold given_def)
  have mode: "uboot_enabled ?args" "\<not> arg_efi ?args"
    by (simp_all add: unfold plain_options_def uboot_enabled_def)
  have fresh: "\<not> exists build_world ''/tmp/foo.img''"
    "\<not> exists build_world (''/tmp/foo.img'' @ ''.u-boot.rom'')"
    "\<not> exists build_world (''/tmp/foo.img'' @ ''.img'')"
    by (simp_all add: exists_def build_world_def)
  have m: "detect_machine build_world ?args = Inr ''qemux86-64''"
    by (simp add: detect_machine_def unfold plain_options_def build_world_def
          given_def isdir_def exists_def listdir_def)
  have src: "uboot_source build_world ?args ''qemux86-64''
      = ''/img/qemux86-64/u-boot-qemux86-64.rom''"
    by (simp add: uboot_source_def unfold plain_options_def build_world_def given_def)
  have base: "base_image build_world ?args ''qemux86-64''
      = ''/img/qemux86-64/core-qemux86-64.ota-ext4''"
    by (simp add: base_image_def extension_for_def exists_def EXTENSIONS_def unfold
          plain_options_def build_world_def)
  have there: "exists build_world ''/img/qemux86-64/u-boot-qemux86-64.rom''"
    "exists build_world ''/img/qemux86-64/core-qemux86-64.ota-ext4''"
    by (simp_all add: exists_def build_world_def)
  have run: "stdout (snd (QemuCommand_init build_world ?args))
       = [''cp /img/qemux86-64/u-boot-qemux86-64.rom /tmp/foo.img.u-boot.rom'',
          ''cp /img/qemux86-64/core-qemux86-64.ota-ext4 /tmp/foo.img.img'']"
    "\<not> isl (fst (QemuCommand_init build_world ?args))"
    by (simp_all add: construction_steps unfold plain_options_def build_world_def)
  have start: "copied build_world = []"
    by (simp add: build_world_def)
  note t = dry_run_copies_nothing
    [OF 1, of build_world "''/tmp/foo.img''" "''qemux86-64''"]
  have "files (snd (QemuCommand_init build_world ?args)) = files build_world"
    "copied (snd (QemuCommand_init build_world ?args)) = []"
    using t by (simp_all add: start)
  with 1 ov mode fresh m there run show ?thesis
    by simp
qed

subsection \<open>C5: the copies beside a new overlay are made once\<close>

text \<open>
  C5 as the specification states it fails in four ways, each with the overlay and the
  files beside it absent, the U-Boot flag enabled, the sources present and no dry run.
  With EFI requested, the constructor needs no U-Boot image and makes one copy, of the
  base image. With an overlay in a directory that does not exist, \<^verbatim>\<open>copyfile\<close> raises
  and nothing is copied. With a bootloader path that exists but is a directory,
  \<^verbatim>\<open>copyfile\<close> raises as well. With no machine named and an image directory that
  does not exist, line 65 raises before any copy.
\<close>

theorem overlay_copies_once_counterexample:
  "uboot_enabled efi_overlay_options \<and> \<not> arg_dry_run efi_overlay_options
   \<and> \<not> exists build_world ''/tmp/foo.img''
   \<and> \<not> exists build_world ''/tmp/foo.img.u-boot.rom''
   \<and> \<not> exists build_world ''/tmp/foo.img.img''
   \<and> exists build_world ''/img/qemux86-64/u-boot-qemux86-64.rom''
   \<and> exists build_world ''/img/qemux86-64/core-qemux86-64.ota-ext4''
   \<and> copied (snd (QemuCommand_init build_world efi_overlay_options))
        = [(''/img/qemux86-64/core-qemux86-64.ota-ext4'', ''/tmp/foo.img.img'')]
   \<and> uboot_enabled nodir_overlay_options \<and> \<not> arg_efi nodir_overlay_options
   \<and> \<not> arg_dry_run nodir_overlay_options
   \<and> \<not> exists build_world ''/nodir/foo.img''
   \<and> \<not> exists build_world ''/nodir/foo.img.u-boot.rom''
   \<and> \<not> exists build_world ''/nodir/foo.img.img''
   \<and> QemuCommand_init build_world nodir_overlay_options
        = (Inl (FileNotFoundError ''/nodir/foo.img.u-boot.rom''), build_world)
   \<and> uboot_enabled dir_bootloader_options \<and> \<not> arg_efi dir_bootloader_options
   \<and> \<not> arg_dry_run dir_bootloader_options
   \<and> exists build_world ''/img''
   \<and> QemuCommand_init build_world dir_bootloader_options
        = (Inl (IsADirectoryError ''/img''), build_world)
   \<and> uboot_enabled stray_overlay_options \<and> \<not> arg_efi stray_overlay_options
   \<and> \<not> arg_dry_run stray_overlay_options
   \<and> arg_bootloader stray_overlay_options = Some ''/img/qemux86-64/u-boot-qemux86-64.rom''
   \<and> arg_imagename stray_overlay_options = ''/img/qemux86-64/core-qemux86-64.ota-ext4''
   \<and> QemuCommand_init build_world stray_overlay_options
        = (Inl (DirectoryMissing ''/none''), build_world)
   \<and> copied build_world = []"
  by (simp add: construction_steps efi_overlay_options_def nodir_overlay_options_def
        dir_bootloader_options_def stray_overlay_options_def overlay_options_def
        plain_options_def build_world_def)

text \<open>
  C5, amended. Take an overlay path for which neither the overlay nor the two files beside
  it exist and whose directory exists, U-Boot boot mode (enabled, EFI not requested), no
  dry run, a machine that resolves, and the U-Boot image and the base disk image on disk
  as regular files. The construction makes exactly two copies, the U-Boot image to
  \<^verbatim>\<open><overlay>.u-boot.rom\<close> and then the base image to \<^verbatim>\<open><overlay>.img\<close>, and a second
  construction with the same options in the world the first one left makes none.
\<close>

theorem overlay_copies_once:
  assumes ov: "given (arg_overlay args) = Some ov"
      and mode: "uboot_enabled args" "\<not> arg_efi args" "\<not> arg_dry_run args"
      and fresh: "\<not> exists w ov" "\<not> exists w (ov @ ''.u-boot.rom'')" "\<not> exists w (ov @ ''.img'')"
      and dir: "dirname ov = [] \<or> isdir w (dirname ov)"
      and m: "detect_machine w args = Inr m"
      and rom: "exists w (uboot_source w args m)" "\<not> isdir w (uboot_source w args m)"
      and img: "exists w (base_image (snd (boot_stage w args)) args m)"
               "\<not> isdir w (base_image (snd (boot_stage w args)) args m)"
  shows "copied (snd (QemuCommand_init w args))
           = copied w @ [(uboot_source w args m, ov @ ''.u-boot.rom''),
                         (base_image (snd (boot_stage w args)) args m, ov @ ''.img'')]
       \<and> files (snd (QemuCommand_init w args))
           = insert (ov @ ''.img'') (insert (ov @ ''.u-boot.rom'') (files w))
       \<and> copied (snd (QemuCommand_init (snd (QemuCommand_init w args)) args))
           = copied (snd (QemuCommand_init w args))"
proof -
  let ?rom = "ov @ ''.u-boot.rom''" and ?img = "ov @ ''.img''"
  let ?w2 = "w\<lparr>files := insert ?rom (files w),
                dirs := add_entry (dirs w) ?rom,
                copied := copied w @ [(uboot_source w args m, ?rom)]\<rparr>"
  have copy1: "copyfile w (uboot_source w args m) ?rom = (Inr (), ?w2)"
    using rom fresh(2) dir
    by (intro copyfile_new) (simp_all add: dirname_beside basename_beside)
  have boot: "select_boot w args True m = (Inr (Some ?rom, None), ?w2)"
    using ov mode fresh rom(1)
    by (simp add: select_boot_def Let_def keep_beside_overlay_def copy1
          check_present_def exists_def)
  then have stage: "boot_stage w args = (Inr (True, m, Some ?rom, None), ?w2)"
    using ov mode(1) m by (simp add: boot_stage_def override_extension_def)
  define base where "base = base_image ?w2 args m"
  have base: "base_image (snd (boot_stage w args)) args m = base"
    by (simp add: stage base_def)
  let ?w3 = "?w2\<lparr>files := insert ?img (files ?w2),
                  dirs := add_entry (dirs ?w2) ?img,
                  copied := copied ?w2 @ [(base, ?img)]\<rparr>"
  have before: "exists w base" "\<not> isdir w base"
    using img unfolding base by blast+
  have there: "exists ?w2 base"
    using before(1) by (simp add: exists_def)
  have regular: "\<not> isdir ?w2 base"
    using before by (auto simp: isdir_def exists_def add_entry_keys)
  have absent: "\<not> exists ?w2 ov" "\<not> exists ?w2 ?img"
    using fresh by (simp_all add: exists_def)
  have "dirname ov = [] \<or> isdir ?w2 (dirname ov)"
    using dir by (auto simp: isdir_def exists_def add_entry_keys)
  then have copy2: "copyfile ?w2 base ?img = (Inr (), ?w3)"
    using there regular absent(2)
    by (intro copyfile_new) (simp_all add: dirname_beside basename_beside)
  have image: "select_image ?w2 args m = (Inr ?img, ?w3)"
    using ov mode(3) there absent
    by (simp add: select_image_def Let_def base_def [symmetric] keep_beside_overlay_def copy2
          check_present_def exists_def)
  obtain k out where fin:
    "snd (finish_init ?w3 args True m (Some ?rom, None) ?img) = ?w3\<lparr>random_used := k, stdout := out\<rparr>"
    using finish_init_frame by blast
  have "snd (QemuCommand_init w args) = snd (finish_init ?w3 args True m (Some ?rom, None) ?img)"
    by (simp add: QemuCommand_init_def stage image)
  with fin have after: "snd (QemuCommand_init w args) = ?w3\<lparr>random_used := k, stdout := out\<rparr>"
    by simp
  let ?w' = "snd (QemuCommand_init w args)"
  have first: "copied ?w' = copied w @ [(uboot_source w args m, ?rom), (base, ?img)]"
    and files: "files ?w' = insert ?img (insert ?rom (files w))"
    by (simp_all add: after)
  have "exists ?w' ?rom" "exists ?w' ?img"
    by (simp_all add: exists_def files)
  then have "copied (snd (QemuCommand_init ?w' args)) = copied ?w'"
    by (rule QemuCommand_init_present(1) [OF ov])
  with first files base show ?thesis by simp
qed

theorem overlay_copies_once_witness:
  "given (arg_overlay overlay_options) = Some ''/tmp/foo.img''
   \<and> uboot_enabled overlay_options \<and> \<not> arg_efi overlay_options \<and> \<not> arg_dry_run overlay_options
   \<and> \<not> exists build_world ''/tmp/foo.img''
   \<and> \<not> exists build_world ''/tmp/foo.img.u-boot.rom''
   \<and> \<not> exists build_world ''/tmp/foo.img.img''
   \<and> isdir build_world (dirname ''/tmp/foo.img'')
   \<and> detect_machine build_world overlay_options = Inr ''qemux86-64''
   \<and> exists build_world ''/img/qemux86-64/u-boot-qemux86-64.rom''
   \<and> \<not> isdir build_world ''/img/qemux86-64/u-boot-qemux86-64.rom''
   \<and> exists build_world ''/img/qemux86-64/core-qemux86-64.ota-ext4''
   \<and> \<not> isdir build_world ''/img/qemux86-64/core-qemux86-64.ota-ext4''
   \<and> copied (snd (QemuCommand_init build_world overlay_options))
        = [(''/img/qemux86-64/u-boot-qemux86-64.rom'', ''/tmp/foo.img.u-boot.rom''),
           (''/img/qemux86-64/core-qemux86-64.ota-ext4'', ''/tmp/foo.img.img'')]
   \<and> copied (snd (QemuCommand_init (snd (QemuCommand_init build_world overlay_options))
                    overlay_options))
        = copied (snd (QemuCommand_init build_world overlay_options))"
proof -
  have ov: "given (arg_overlay overlay_options) = Some ''/tmp/foo.img''"
    by (simp add: overlay_options_def given_def)
  have mode: "uboot_enabled overlay_options" "\<not> arg_efi overlay_options"
    "\<not> arg_dry_run overlay_options"
    by (simp_all add: overlay_options_def plain_options_def uboot_enabled_def)
  have fresh: "\<not> exists build_world ''/tmp/foo.img''"
    "\<not> exists build_world (''/tmp/foo.img'' @ ''.u-boot.rom'')"
    "\<not> exists build_world (''/tmp/foo.img'' @ ''.img'')"
    by (simp_all add: exists_def build_world_def)
  have d: "isdir build_world (dirname ''/tmp/foo.img'')"
    by (simp add: dirname_def isdir_def exists_def build_world_def)
  then have dir: "dirname ''/tmp/foo.img'' = [] \<or> isdir build_world (dirname ''/tmp/foo.img'')"
    by simp
  have m: "detect_machine build_world overlay_options = Inr ''qemux86-64''"
    by (simp add: detect_machine_def overlay_options_def plain_options_def build_world_def
          given_def isdir_def exists_def listdir_def)
  have src: "uboot_source build_world overlay_options ''qemux86-64''
      = ''/img/qemux86-64/u-boot-qemux86-64.rom''"
    by (simp add: uboot_source_def overlay_options_def plain_options_def build_world_def given_def)
  have base: "base_image (snd (boot_stage build_world overlay_options)) overlay_options ''qemux86-64''
      = ''/img/qemux86-64/core-qemux86-64.ota-ext4''"
    by (simp add: construction_steps overlay_options_def plain_options_def build_world_def)
  have there: "exists build_world ''/img/qemux86-64/u-boot-qemux86-64.rom''"
    "\<not> isdir build_world ''/img/qemux86-64/u-boot-qemux86-64.rom''"
    "exists build_world ''/img/qemux86-64/core-qemux86-64.ota-ext4''"
    "\<not> isdir build_world ''/img/qemux86-64/core-qemux86-64.ota-ext4''"
    by (simp_all add: isdir_def exists_def build_world_def)
  have rom: "exists build_world (uboot_source build_world overlay_options ''qemux86-64'')"
    "\<not> isdir build_world (uboot_source build_world overlay_options ''qemux86-64'')"
    unfolding src by (rule there)+
  have img: "exists build_world
      (base_image (snd (boot_stage build_world overlay_options)) overlay_options ''qemux86-64'')"
    "\<not> isdir build_world
      (base_image (snd (boot_stage build_world overlay_options)) overlay_options ''qemux86-64'')"
    unfolding base by (rule there)+
  have start: "copied build_world = []"
    by (simp add: build_world_def)
  note t = overlay_copies_once [OF ov mode fresh dir m rom img]
  have "copied (snd (QemuCommand_init build_world overlay_options))
        = [(''/img/qemux86-64/u-boot-qemux86-64.rom'', ''/tmp/foo.img.u-boot.rom''),
           (''/img/qemux86-64/core-qemux86-64.ota-ext4'', ''/tmp/foo.img.img'')]
   \<and> copied (snd (QemuCommand_init (snd (QemuCommand_init build_world overlay_options))
                    overlay_options))
        = copied (snd (QemuCommand_init build_world overlay_options))"
    using t unfolding src base start by simp
  with ov mode fresh d m there show ?thesis
    by simp
qed

subsection \<open>C6: the command line and the random generator\<close>




subsection \<open>C7: the override of the table outlives the construction\<close>



subsection \<open>C8: the window of ten ports\<close>

text \<open>
  C8 as the specification states it fails at the edges of the port range: a port outside
  0..65535 makes \<^verbatim>\<open>bind\<close> raise \<^verbatim>\<open>OverflowError\<close>, which the finder does not catch.
  With the ports 65530 to 65535 taken, the finder started at 65530 raises that error, not
  the one for an exhausted window; started at -1, it raises it before it reaches port 0,
  which would bind.
\<close>

theorem find_local_port_window_counterexample:
  "map (bind_outcome crowded_world)
       [65530, 65531, 65532, 65533, 65534, 65535, 65536, 65537, 65538, 65539]
     = [Raises_socket_error, Raises_socket_error, Raises_socket_error, Raises_socket_error,
        Raises_socket_error, Raises_socket_error, Raises_OverflowError, Raises_OverflowError,
        Raises_OverflowError, Raises_OverflowError]
   \<and> fst (find_local_port crowded_world 65530) = Inl OverflowError
   \<and> classify OverflowError \<noteq> ResourceExhaustionError
   \<and> map (bind_outcome build_world) [- 1, 0] = [Raises_OverflowError, Bound]
   \<and> fst (find_local_port build_world (- 1)) = Inl OverflowError"
  by (simp add: crowded_world_def build_world_def find_local_port_def bind_outcome_def
        socket_close_def print_def upto_rec1)

text \<open>
  C8, amended. For every starting port \<open>p\<close>: if \<^verbatim>\<open>bind\<close> raises \<^verbatim>\<open>socket.error\<close>
  on each of the ten ports \<open>p..p+9\<close>, the finder raises the error for an exhausted
  window; if the port \<open>p+n\<close> (\<open>n < 10\<close>) binds and \<^verbatim>\<open>bind\<close> raised
  \<^verbatim>\<open>socket.error\<close> on each port before it, the finder returns \<open>p+n\<close>; and in every
  case no port is left bound.
\<close>

theorem find_local_port_window:
  "((\<forall>port \<in> {p .. p + 9}. bind_outcome w port = Raises_socket_error)
      \<longrightarrow> fst (find_local_port w p) = Inl NoFreePort
          \<and> classify NoFreePort = ResourceExhaustionError)
   \<and> (n < 10 \<and> (\<forall>i < n. bind_outcome w (p + int i) = Raises_socket_error)
        \<and> bind_outcome w (p + int n) = Bound
      \<longrightarrow> fst (find_local_port w p) = Inr (p + int n))
   \<and> refused_ports (snd (find_local_port w p)) = refused_ports w"
proof (intro conjI impI)
  assume "\<forall>port \<in> {p .. p + 9}. bind_outcome w port = Raises_socket_error"
  then have "\<forall>port \<in> set [p .. p + 10 - 1]. bind_outcome w port = Raises_socket_error"
    by simp
  then show "fst (find_local_port w p) = Inl NoFreePort"
    unfolding find_local_port_def by (rule probe_ports_all_refused)
next
  show "classify NoFreePort = ResourceExhaustionError" by simp
next
  assume a: "n < 10 \<and> (\<forall>i < n. bind_outcome w (p + int i) = Raises_socket_error)
        \<and> bind_outcome w (p + int n) = Bound"
  have "bind_outcome w port = Raises_socket_error" if "port \<in> set [p .. p + int n - 1]" for port
  proof -
    from that have "p \<le> port" "port < p + int n" by simp_all
    then have "nat (port - p) < n" "port = p + int (nat (port - p))" by simp_all
    with a show ?thesis by metis
  qed
  then have "fst (probe_ports w ([p .. p + int n - 1] @ (p + int n) # [p + int n + 1 .. p + 10 - 1]))
      = Inr (p + int n)"
    using a by (intro probe_ports_first_bound) simp_all
  moreover have "[p .. p + 10 - 1]
      = [p .. p + int n - 1] @ (p + int n) # [p + int n + 1 .. p + 10 - 1]"
    using a by (intro window_split) simp
  ultimately show "fst (find_local_port w p) = Inr (p + int n)"
    unfolding find_local_port_def by (simp only:)
next
  show "refused_ports (snd (find_local_port w p)) = refused_ports w"
    by (rule refused_ports_find_local_port)
qed

theorem find_local_port_window_witness:
  "map (bind_outcome (build_world\<lparr>refused_ports := {8990 .. 8999}\<rparr>)) [8990 .. 8999]
     = replicate 10 Raises_socket_error
   \<and> fst (find_local_port (build_world\<lparr>refused_ports := {8990 .. 8999}\<rparr>) 8990) = Inl NoFreePort
   \<and> map (bind_outcome (build_world\<lparr>refused_ports := {2222, 2223}\<rparr>)) [2222, 2223, 2224]
     = [Raises_socket_error, Raises_socket_error, Bound]
   \<and> fst (find_local_port (build_world\<lparr>refused_ports := {2222, 2223}\<rparr>) 2222) = Inr 2224"
proof -
  let ?full = "build_world\<lparr>refused_ports := {8990 .. 8999}\<rparr>"
  let ?two = "build_world\<lparr>refused_ports := {2222, 2223}\<rparr>"
  have 1: "\<forall>port \<in> {8990 .. 8990 + 9}. bind_outcome ?full port = Raises_socket_error"
    by (simp add: bind_outcome_def)
  have 2: "\<forall>i < 2. bind_outcome ?two (2222 + int i) = Raises_socket_error"
  proof (intro allI impI)
    fix i :: nat assume "i < 2"
    then have "i = 0 \<or> i = 1" by auto
    then show "bind_outcome ?two (2222 + int i) = Raises_socket_error"
      by (auto simp: bind_outcome_def)
  qed
  have 3: "bind_outcome ?two (2222 + int 2) = Bound"
    by (simp add: bind_outcome_def)
  have 4: "map (bind_outcome ?full) [8990 .. 8999] = replicate 10 Raises_socket_error"
    "map (bind_outcome ?two) [2222, 2223, 2224] = [Raises_socket_error, Raises_socket_error, Bound]"
    by (simp_all add: bind_outcome_def upto_rec1 eval_nat_numeral)
  show ?thesis
    using find_local_port_window [of 8990 ?full 0] find_local_port_window [of 2222 ?two 2] 1 2 3
    unfolding 4 by simp
qed

subsection \<open>C9: the command line of a direct kernel boot\<close>

text \<open>
  C9 as the specification states it fails when EFI is requested along with U-Boot
  disabled: the construction succeeds for \<^verbatim>\<open>qemux86-64\<close> with no overlay and the
  artifacts on disk, the constructor took the EFI branch and left \<^verbatim>\<open>self.kernel\<close> as
  \<open>None\<close>, and the command line holds \<^verbatim>\<open>-kernel\<close> followed by \<open>None\<close>, not by a
  kernel path.
\<close>

theorem direct_kernel_command_line_counterexample:
  "QemuCommand_init build_world efi_kernel_options = (Inr efi_kernel_command, kernel_world)
   \<and> \<not> uboot_enabled efi_kernel_options
   \<and> machine efi_kernel_command = ''qemux86-64''
   \<and> \<not> truthy (arg_overlay efi_kernel_options)
   \<and> kernel efi_kernel_command = None
   \<and> map_sum id (followed_by (Some ''-kernel'') None)
        (fst (command_line kernel_world efi_kernel_command)) = Inr True
   \<and> map_sum id (followed_by (Some ''-kernel'')
        (Some (abspath build_world
                 (join (arg_dir efi_kernel_options) [''qemux86-64'', ''bzImage-qemux86-64.bin'']))))
        (fst (command_line kernel_world efi_kernel_command)) = Inr False"
proof -
  have "QemuCommand_init build_world efi_kernel_options = (Inr efi_kernel_command, kernel_world)"
    by (simp add: construction_steps build_world_def plain_options_def plain_command_def
          efi_kernel_options_def efi_kernel_command_def kernel_command_def kernel_world_def)
  moreover have "\<not> uboot_enabled efi_kernel_options"
    "\<not> truthy (arg_overlay efi_kernel_options)"
    by (simp_all add: uboot_enabled_def truthy_def given_def efi_kernel_options_def
          plain_options_def lower_def lower_char_def)
  ultimately show ?thesis
    by (simp add: command_line_steps efi_kernel_options_def efi_kernel_command_def
          kernel_command_def plain_command_def plain_options_def build_world_def)
qed

text \<open>
  C9, amended. For every successful construction in direct-kernel mode (U-Boot disabled
  and EFI not requested), for \<^verbatim>\<open>qemux86-64\<close> as for any machine: no overlay was
  requested, \<^verbatim>\<open>self.kernel\<close> is the conventional kernel path under the image directory,
  and the command line holds \<^verbatim>\<open>-kernel\<close> followed by that path, \<^verbatim>\<open>-append\<close>
  followed by the fixed kernel arguments, and \<^verbatim>\<open>-drive\<close> followed by the attachment
  of the image with the interface \<^verbatim>\<open>virtio\<close>.
\<close>

theorem direct_kernel_command_line:
  assumes "QemuCommand_init w args = (Inr c, w')"
      and "\<not> uboot_enabled args"
      and "\<not> arg_efi args"
  shows "\<not> truthy (arg_overlay args)
     \<and> (\<exists>ts. fst (command_line v c) = Inr ts
          \<and> followed_by (Some ''-kernel'')
               (Some (abspath w (join (arg_dir args) [machine c, ''bzImage-qemux86-64.bin''])))
               ts
          \<and> followed_by (Some ''-append'')
               (Some ''root=/dev/vda rw highres=off console=ttyS0 ip=dhcp'') ts
          \<and> followed_by (Some ''-drive'')
               (Some (''file='' @ image c @ '',if=virtio,format=raw,snapshot=on'')) ts)"
proof -
  from assms(1) obtain enable m boot w2 img w3 where
    b: "boot_stage w args = (Inr (enable, m, boot), w2)" and
    i: "select_image w2 args m = (Inr img, w3)" and
    f: "finish_init w3 args enable m boot img = (Inr c, w')"
    by (rule QemuCommand_init_Inr)
  note stage = boot_stage_Inr [OF b]
  have en: "\<not> enable" using stage(1) assms(2) by simp
  then have ov: "\<not> truthy (arg_overlay args)" using stage(2) by simp
  have "abspath (override_extension w enable) = abspath w"
    by (simp add: override_extension_def)
  then have "boot = (None, Some (abspath w (join (arg_dir args) [m, ''bzImage-qemux86-64.bin''])))"
    using select_boot_Inr(2) [OF stage(4) assms(3) en] by simp
  then have k: "kernel c = Some (abspath w (join (arg_dir args) [machine c, ''bzImage-qemux86-64.bin'']))"
    using finish_init_Inr(2,5) [OF f] by simp
  have c: "\<not> enable_u_boot c" "drive_interface c = ''virtio''" "\<not> truthy (overlay c)"
    using finish_init_Inr(1,6,7) [OF f] en ov by simp_all
  show ?thesis
    using command_line_kernel [OF c(1), of v] c(2,3) ov k by auto
qed

theorem direct_kernel_command_line_witness:
  "QemuCommand_init build_world kernel_options = (Inr kernel_command, kernel_world)
   \<and> \<not> uboot_enabled kernel_options
   \<and> \<not> arg_efi kernel_options
   \<and> machine kernel_command = ''qemux86-64''
   \<and> (\<exists>ts. fst (command_line kernel_world kernel_command) = Inr ts
        \<and> followed_by (Some ''-kernel'') (Some ''/img/qemux86-64/bzImage-qemux86-64.bin'') ts
        \<and> followed_by (Some ''-append'')
             (Some ''root=/dev/vda rw highres=off console=ttyS0 ip=dhcp'') ts
        \<and> followed_by (Some ''-drive'')
             (Some ''file=/img/qemux86-64/core-qemux86-64.ext4,if=virtio,format=raw,snapshot=on'')
             ts)"
proof -
  have 2: "\<not> uboot_enabled kernel_options"
    by (simp add: uboot_enabled_def kernel_options_def lower_def lower_char_def)
  have 3: "\<not> arg_efi kernel_options"
    by (simp add: kernel_options_def plain_options_def)
  have c: "image kernel_command = ''/img/qemux86-64/core-qemux86-64.ext4''"
    "machine kernel_command = ''qemux86-64''"
    by (simp_all add: kernel_command_def plain_command_def)
  have p: "abspath build_world
             (join (arg_dir kernel_options) [''qemux86-64'', ''bzImage-qemux86-64.bin''])
      = ''/img/qemux86-64/bzImage-qemux86-64.bin''"
    by (simp add: build_world_def kernel_options_def plain_options_def)
  have "\<exists>ts. fst (command_line kernel_world kernel_command) = Inr ts
        \<and> followed_by (Some ''-kernel'') (Some ''/img/qemux86-64/bzImage-qemux86-64.bin'') ts
        \<and> followed_by (Some ''-append'')
             (Some ''root=/dev/vda rw highres=off console=ttyS0 ip=dhcp'') ts
        \<and> followed_by (Some ''-drive'')
             (Some ''file=/img/qemux86-64/core-qemux86-64.ext4,if=virtio,format=raw,snapshot=on'')
             ts"
    using direct_kernel_command_line [OF init_kernel 2 3, of kernel_world]
    unfolding c p append.simps by (elim conjE)
  with init_kernel 2 3 c(2) show ?thesis
    by (intro conjI)
qed

subsection \<open>C10: the values that enable U-Boot\<close>

text \<open>
  C10. The object of a successful construction has U-Boot enabled exactly when the options
  have no \<^verbatim>\<open>uboot_enable\<close> attribute or its value lowers to \<^verbatim>\<open>yes\<close>, \<^verbatim>\<open>true\<close>
  or \<^verbatim>\<open>1\<close>. With any other value the object is in direct-kernel behaviour: the drive
  interface is \<^verbatim>\<open>virtio\<close>, the table holds \<^verbatim>\<open>ext4\<close> for \<^verbatim>\<open>qemux86-64\<close>, and the
  command line holds \<^verbatim>\<open>-kernel\<close> and \<^verbatim>\<open>-append\<close>.
\<close>

theorem uboot_enable_values:
  assumes "QemuCommand_init w args = (Inr c, w')"
  shows "(enable_u_boot c \<longleftrightarrow>
            arg_uboot_enable args = None
            \<or> (\<exists>s. arg_uboot_enable args = Some s \<and> lower s \<in> {''yes'', ''true'', ''1''}))
     \<and> (\<not> enable_u_boot c \<longrightarrow>
          drive_interface c = ''virtio''
          \<and> extensions w' ''qemux86-64'' = Some ''ext4''
          \<and> (\<exists>ts. fst (command_line v c) = Inr ts
               \<and> followed_by (Some ''-kernel'') (kernel c) ts
               \<and> followed_by (Some ''-append'')
                    (Some ''root=/dev/vda rw highres=off console=ttyS0 ip=dhcp'') ts))"
proof -
  note facts = QemuCommand_init_image [OF assms]
  from assms obtain enable m boot w2 img w3 where
    b: "boot_stage w args = (Inr (enable, m, boot), w2)" and
    i: "select_image w2 args m = (Inr img, w3)" and
    f: "finish_init w3 args enable m boot img = (Inr c, w')"
    by (rule QemuCommand_init_Inr)
  have 1: "enable_u_boot c \<longleftrightarrow>
            arg_uboot_enable args = None
            \<or> (\<exists>s. arg_uboot_enable args = Some s \<and> lower s \<in> {''yes'', ''true'', ''1''})"
    using facts(1) by (auto simp: uboot_enabled_def split: option.splits)
  have 2: "drive_interface c = ''virtio''" if "\<not> enable_u_boot c"
    using that finish_init_Inr(1,7) [OF f] by simp
  have "extensions w' = table_after w args"
    using QemuCommand_init_table [of w args] assms by simp
  then have 3: "extensions w' ''qemux86-64'' = Some ''ext4''" if "\<not> enable_u_boot c"
    using that facts(1,2) by (simp add: table_after_def)
  show ?thesis
    using 1 2 3 command_line_kernel [of c v] by blast
qed

theorem uboot_enable_values_witness:
  "QemuCommand_init build_world (plain_options\<lparr>arg_uboot_enable := Some ''on''\<rparr>)
     = (Inr kernel_command, kernel_world)
   \<and> lower ''on'' \<notin> {''yes'', ''true'', ''1''}
   \<and> \<not> enable_u_boot kernel_command
   \<and> drive_interface kernel_command = ''virtio''
   \<and> extensions kernel_world ''qemux86-64'' = Some ''ext4''
   \<and> \<not> uboot_enabled (plain_options\<lparr>arg_uboot_enable := Some ''enabled''\<rparr>)
   \<and> uboot_enabled (plain_options\<lparr>arg_uboot_enable := Some ''True''\<rparr>)"
proof -
  have 1: "QemuCommand_init build_world (plain_options\<lparr>arg_uboot_enable := Some ''on''\<rparr>)
     = (Inr kernel_command, kernel_world)"
    by (simp add: construction_steps build_world_def plain_options_def plain_command_def
          kernel_command_def kernel_world_def)
  have 2: "lower ''on'' \<notin> {''yes'', ''true'', ''1''}"
    by (simp add: lower_def lower_char_def)
  have 3: "\<not> uboot_enabled (plain_options\<lparr>arg_uboot_enable := Some ''enabled''\<rparr>)"
    "uboot_enabled (plain_options\<lparr>arg_uboot_enable := Some ''True''\<rparr>)"
    by (simp_all add: uboot_enabled_def lower_def lower_char_def)
  show ?thesis
    using uboot_enable_values [OF 1, of kernel_world] 1 2 3
    by auto
qed

end
